theory Spec2Isabelle
  imports Complex_Main
begin

section \<open>Values of the Python program\<close>

text \<open>
  Strings are lists of characters, one \<open>char\<close> per code point below 256.
  Python floats are the finite doubles, the two infinities and NaN; a finite double is
  represented by the real number it denotes (rounding is not modelled: every float the
  properties below speak about is exactly representable).
\<close>

datatype pyfloat = Fin real | PosInf | NegInf | NaN

fun fle :: "pyfloat \<Rightarrow> pyfloat \<Rightarrow> bool" where
  "fle NaN _ = False"
| "fle _ NaN = False"
| "fle NegInf _ = True"
| "fle _ PosInf = True"
| "fle (Fin a) (Fin b) = (a \<le> b)"
| "fle (Fin a) NegInf = False"
| "fle PosInf (Fin b) = False"
| "fle PosInf NegInf = False"

datatype json =
    JNull
  | JBool bool
  | JInt int
  | JFloat pyfloat
  | JStr string
  | JList "json list"
  | JObj "(string \<times> json) list"

text \<open>
  The exceptions that the two tools raise or let through. \<open>JSONDecodeError\<close> is a subclass
  of \<open>ValueError\<close> in Python, so an \<open>except ValueError\<close> clause catches both.
\<close>

datatype error =
    EOFError
  | ValueError string
  | JSONDecodeError
  | OverflowError
  | TypeError
  | IndexError
  | RuntimeError string
  | OperationalError string
  | IntegrityError string

fun is_ValueError :: "error \<Rightarrow> bool" where
  "is_ValueError (ValueError _) = True"
| "is_ValueError JSONDecodeError = True"
| "is_ValueError _ = False"

text \<open>
  \<open>str(exc)\<close> for a caught \<open>ValueError\<close>: the message it was raised with. (The text of
  a \<open>JSONDecodeError\<close> is produced by the json library and is not modelled.)
\<close>

fun str_of_error :: "error \<Rightarrow> string" where
  "str_of_error (ValueError m) = m"
| "str_of_error _ = []"

text \<open>
  The library functions the source calls on operator text are parameters of the model:
  \<open>float(raw)\<close> and \<open>int(raw)\<close> (\<open>None\<close> is \<open>ValueError\<close>), \<open>json.loads\<close> (which
  raises \<open>JSONDecodeError\<close> on malformed text) and \<open>json.dumps\<close>.
\<close>

record builtins =
  py_float :: "string \<Rightarrow> pyfloat option"
  py_int :: "string \<Rightarrow> int option"
  json_loads :: "string \<Rightarrow> error + json"
  json_dumps :: "json \<Rightarrow> string"

subsection \<open>String helpers\<close>

definition is_space :: "char \<Rightarrow> bool" where
  "is_space c = (let n = (of_char c :: nat) in
     (9 \<le> n \<and> n \<le> 13) \<or> (28 \<le> n \<and> n \<le> 32) \<or> n = 133 \<or> n = 160)"

definition lstrip :: "string \<Rightarrow> string" where
  "lstrip s = dropWhile is_space s"

definition strip :: "string \<Rightarrow> string" where
  "strip s = rev (dropWhile is_space (rev (dropWhile is_space s)))"

definition lower_char :: "char \<Rightarrow> char" where
  "lower_char c = (let n = (of_char c :: nat) in
     if (65 \<le> n \<and> n \<le> 90) \<or> (192 \<le> n \<and> n \<le> 222 \<and> n \<noteq> 215)
     then char_of (n + 32) else c)"

definition lower :: "string \<Rightarrow> string" where
  "lower s = map lower_char s"

text \<open>\<open>raw.split(",")\<close>: the pieces between commas; the empty string gives one empty piece.\<close>

fun split_comma :: "string \<Rightarrow> string list" where
  "split_comma [] = [[]]"
| "split_comma (c # cs) =
     (if c = CHR '','' then [] # split_comma cs
      else (case split_comma cs of
              [] \<Rightarrow> [[c]]
            | p # ps \<Rightarrow> (c # p) # ps))"

text \<open>Decimal rendering of an integer, as in \<open>f"test:{test_id}"\<close>.\<close>

fun digits_of_nat :: "nat \<Rightarrow> string" where
  "digits_of_nat n =
     (if n < 10 then [char_of (48 + n)]
      else digits_of_nat (n div 10) @ [char_of (48 + n mod 10)])"

definition str_of_int :: "int \<Rightarrow> string" where
  "str_of_int i = (if i < 0 then CHR ''-'' # digits_of_nat (nat (- i)) else digits_of_nat (nat i))"

section \<open>Input collector (handshakeos\_e/cli.py)\<close>

text \<open>
  Standard input is the list of the lines still to be read; \<open>input()\<close> on the empty list
  raises \<open>EOFError\<close>. What the program writes, and what it inserts into the store, is
  recorded in order as a list of events. A \<open>Prompt\<close> event carries the label the prompt
  function was called with (the range or format hint that the function appends to it is
  fixed per function and not recorded), a \<open>Read\<close> event the line that \<open>input()\<close>
  returned; a \<open>Say\<close> event is one \<open>print\<close> call; an \<open>Inserted\<close> event is one
  successful \<open>INSERT\<close>, with the table, the \<open>lastrowid\<close> and the values bound to the
  statement's columns.
\<close>

datatype sqlval = SNull | SInt int | SReal pyfloat | SText string

datatype message =
    PleaseProvideValue
  | PleaseChoose "string list"
  | PleaseEnterNumber
  | PleaseEnterInteger
  | MustBeBetweenF pyfloat pyfloat
  | MustBeBetweenI int int
  | ErrorText string
  | CapturedHypotheses
  | HypothesisLine nat int
  | ProvideOutcomeRefs int
  | CapturePatternSeed

datatype event =
    Prompt string
  | Read string
  | Say message
  | Inserted string int "(string \<times> sqlval) list"

type_synonym 'a io_result = "(error + 'a) \<times> string list \<times> event list"

fun prompt_text :: "string \<Rightarrow> bool \<Rightarrow> string list \<Rightarrow> event list \<Rightarrow> string io_result" where
  "prompt_text label allow_empty [] out = (Inl EOFError, [], out @ [Prompt label])"
| "prompt_text label allow_empty (line # rest) out =
     (let v = strip line in
      if v \<noteq> [] \<or> allow_empty then (Inr v, rest, out @ [Prompt label, Read line])
      else prompt_text label allow_empty rest (out @ [Prompt label, Read line, Say PleaseProvideValue]))"

fun prompt_choice :: "string \<Rightarrow> string list \<Rightarrow> string list \<Rightarrow> event list \<Rightarrow> string io_result" where
  "prompt_choice label options [] out = (Inl EOFError, [], out @ [Prompt label])"
| "prompt_choice label options (line # rest) out =
     (let v = lower (strip line) in
      if v \<in> set options then (Inr v, rest, out @ [Prompt label, Read line])
      else prompt_choice label options rest (out @ [Prompt label, Read line, Say (PleaseChoose options)]))"

fun prompt_float ::
  "builtins \<Rightarrow> string \<Rightarrow> pyfloat \<Rightarrow> pyfloat \<Rightarrow> string list \<Rightarrow> event list \<Rightarrow> pyfloat io_result" where
  "prompt_float B label min_value max_value [] out = (Inl EOFError, [], out @ [Prompt label])"
| "prompt_float B label min_value max_value (line # rest) out =
     (case py_float B (strip line) of
        None \<Rightarrow> prompt_float B label min_value max_value rest
                  (out @ [Prompt label, Read line, Say PleaseEnterNumber])
      | Some v \<Rightarrow>
          if fle min_value v \<and> fle v max_value then (Inr v, rest, out @ [Prompt label, Read line])
          else prompt_float B label min_value max_value rest
                 (out @ [Prompt label, Read line, Say (MustBeBetweenF min_value max_value)]))"

fun prompt_int ::
  "builtins \<Rightarrow> string \<Rightarrow> int \<Rightarrow> int \<Rightarrow> string list \<Rightarrow> event list \<Rightarrow> int io_result" where
  "prompt_int B label min_value max_value [] out = (Inl EOFError, [], out @ [Prompt label])"
| "prompt_int B label min_value max_value (line # rest) out =
     (case py_int B (strip line) of
        None \<Rightarrow> prompt_int B label min_value max_value rest
                  (out @ [Prompt label, Read line, Say PleaseEnterInteger])
      | Some v \<Rightarrow>
          if min_value \<le> v \<and> v \<le> max_value then (Inr v, rest, out @ [Prompt label, Read line])
          else prompt_int B label min_value max_value rest
                 (out @ [Prompt label, Read line, Say (MustBeBetweenI min_value max_value)]))"

subsection \<open>Mixture vectors\<close>

record mixture_entry =
  domain :: string
  weight :: pyfloat

text \<open>\<open>entry.get(key)\<close> on the dict that json.loads built: the last pair with that key.\<close>

definition dict_get :: "(string \<times> json) list \<Rightarrow> string \<Rightarrow> json option" where
  "dict_get kvs k = map_of (rev kvs) k"

text \<open>
  \<open>isinstance(weight, (int, float))\<close>: \<open>bool\<close> is a subclass of \<open>int\<close>. \<open>float(weight)\<close>
  raises \<open>OverflowError\<close> on an int that rounds to \<open>2 ^ 1024\<close> or beyond.
\<close>

fun is_int_or_float :: "json \<Rightarrow> bool" where
  "is_int_or_float (JBool _) = True"
| "is_int_or_float (JInt _) = True"
| "is_int_or_float (JFloat _) = True"
| "is_int_or_float _ = False"

definition float_of_int :: "int \<Rightarrow> error + pyfloat" where
  "float_of_int i =
     (if \<bar>i\<bar> \<ge> 2 ^ 1024 - 2 ^ 970 then Inl OverflowError else Inr (Fin (real_of_int i)))"

fun float_of_json :: "json \<Rightarrow> error + pyfloat" where
  "float_of_json (JBool b) = float_of_int (if b then 1 else 0)"
| "float_of_json (JInt i) = float_of_int i"
| "float_of_json (JFloat f) = Inr f"
| "float_of_json _ = Inl TypeError"

text \<open>The \<open>for entry in data\<close> loop of \<open>_parse_mixture_vector\<close>, with its accumulator.\<close>

fun clean_entries :: "json list \<Rightarrow> mixture_entry list \<Rightarrow> error + mixture_entry list" where
  "clean_entries [] cleaned = Inr cleaned"
| "clean_entries (JObj kvs # rest) cleaned =
     (case dict_get kvs ''domain'' of
        Some (JStr d) \<Rightarrow>
          if d = [] then Inl (ValueError ''Each mixture entry needs a non-empty 'domain' string.'')
          else (case dict_get kvs ''weight'' of
                  None \<Rightarrow> Inl (ValueError ''Each mixture entry needs a numeric 'weight'.'')
                | Some w \<Rightarrow>
                    if \<not> is_int_or_float w
                    then Inl (ValueError ''Each mixture entry needs a numeric 'weight'.'')
                    else (case float_of_json w of
                            Inl e \<Rightarrow> Inl e
                          | Inr f \<Rightarrow>
                              clean_entries rest (cleaned @ [\<lparr>domain = d, weight = f\<rparr>])))
      | _ \<Rightarrow> Inl (ValueError ''Each mixture entry needs a non-empty 'domain' string.''))"
| "clean_entries (_ # rest) cleaned = Inl (ValueError ''Each mixture entry must be an object.'')"

definition parse_mixture_vector :: "builtins \<Rightarrow> string \<Rightarrow> error + mixture_entry list" where
  "parse_mixture_vector B raw =
     (if raw = [] then Inr []
      else (case json_loads B raw of
              Inl JSONDecodeError \<Rightarrow> Inl (ValueError ''Mixture vector must be JSON (list of objects).'')
            | Inl e \<Rightarrow> Inl e
            | Inr (JList data) \<Rightarrow> clean_entries data []
            | Inr _ \<Rightarrow> Inl (ValueError ''Mixture vector must be a JSON list.'')))"

fun prompt_mixture_vector ::
  "builtins \<Rightarrow> string \<Rightarrow> string list \<Rightarrow> event list \<Rightarrow> mixture_entry list io_result" where
  "prompt_mixture_vector B label [] out = (Inl EOFError, [], out @ [Prompt label])"
| "prompt_mixture_vector B label (line # rest) out =
     (case parse_mixture_vector B (strip line) of
        Inr v \<Rightarrow> (Inr v, rest, out @ [Prompt label, Read line])
      | Inl e \<Rightarrow>
          if is_ValueError e
          then prompt_mixture_vector B label rest (out @ [Prompt label, Read line, Say (ErrorText (str_of_error e))])
          else (Inl e, rest, out @ [Prompt label, Read line]))"

subsection \<open>Evidence references\<close>

fun all_strings :: "json list \<Rightarrow> string list option" where
  "all_strings [] = Some []"
| "all_strings (JStr s # rest) = map_option (\<lambda>ss. s # ss) (all_strings rest)"
| "all_strings (_ # rest) = None"

definition parse_evidence_refs :: "builtins \<Rightarrow> string \<Rightarrow> error + string list" where
  "parse_evidence_refs B raw =
     (if raw = [] then Inr []
      else if take 1 (lstrip raw) = ''[''
      then (case json_loads B raw of
              Inl JSONDecodeError \<Rightarrow> Inl (ValueError ''Evidence refs must be JSON list or comma-separated.'')
            | Inl e \<Rightarrow> Inl e
            | Inr (JList data) \<Rightarrow>
                (case all_strings data of
                   None \<Rightarrow> Inl (ValueError ''Evidence refs JSON must be a list of strings.'')
                 | Some items \<Rightarrow> Inr (map strip (filter (\<lambda>item. strip item \<noteq> []) items)))
            | Inr _ \<Rightarrow> Inl (ValueError ''Evidence refs JSON must be a list of strings.''))
      else Inr (map strip (filter (\<lambda>item. strip item \<noteq> []) (split_comma raw))))"

fun prompt_evidence_refs ::
  "builtins \<Rightarrow> string \<Rightarrow> string list \<Rightarrow> event list \<Rightarrow> string list io_result" where
  "prompt_evidence_refs B label [] out = (Inl EOFError, [], out @ [Prompt label])"
| "prompt_evidence_refs B label (line # rest) out =
     (case parse_evidence_refs B (strip line) of
        Inr v \<Rightarrow> (Inr v, rest, out @ [Prompt label, Read line])
      | Inl e \<Rightarrow>
          if is_ValueError e
          then prompt_evidence_refs B label rest (out @ [Prompt label, Read line, Say (ErrorText (str_of_error e))])
          else (Inl e, rest, out @ [Prompt label, Read line]))"


section \<open>Store: the SQLite database behind a connection\<close>

text \<open>
  A table has an optional \<open>INTEGER PRIMARY KEY AUTOINCREMENT\<close> column (an alias of the
  rowid), its other columns with their \<open>NOT NULL\<close> flag, its foreign keys (column, parent
  table, parent column), the value SQLite keeps for it in \<open>sqlite_sequence\<close>, and its
  rows in insertion order, each a rowid with the cells of the other columns.
  A database is its tables in creation order and its indexes (name, table, column).
\<close>

type_synonym cells = "(string \<times> sqlval) list"

record table =
  t_key :: "string option"
  t_cols :: "(string \<times> bool) list"
  t_fks :: "(string \<times> string \<times> string) list"
  t_seq :: int
  t_rows :: "(int \<times> cells) list"

record database =
  tables :: "(string \<times> table) list"
  indexes :: "(string \<times> string \<times> string) list"

datatype stmt =
    PragmaForeignKeysOn
  | CreateTable string table
  | CreateIndex string string string
  | InsertInto string "string list" "sqlval list"
  | DeleteFrom string

definition MAX_ROWID :: int where
  "MAX_ROWID = 9223372036854775807"

definition lookup_table :: "database \<Rightarrow> string \<Rightarrow> table option" where
  "lookup_table db name = map_of (tables db) name"

definition update_table :: "database \<Rightarrow> string \<Rightarrow> table \<Rightarrow> database" where
  "update_table db name t =
     db\<lparr>tables := map (\<lambda>(n, t'). if n = name then (n, t) else (n, t')) (tables db)\<rparr>"

definition column_names :: "table \<Rightarrow> string list" where
  "column_names t = (case t_key t of None \<Rightarrow> [] | Some k \<Rightarrow> [k]) @ map fst (t_cols t)"

definition cell_value :: "cells \<Rightarrow> string \<Rightarrow> sqlval" where
  "cell_value cs c = (case map_of cs c of None \<Rightarrow> SNull | Some v \<Rightarrow> v)"

fun max_rowid :: "(int \<times> cells) list \<Rightarrow> int option" where
  "max_rowid [] = None"
| "max_rowid ((r, _) # rows) =
     (case max_rowid rows of None \<Rightarrow> Some r | Some m \<Rightarrow> Some (max r m))"

text \<open>
  The rowid of a row inserted without one: one more than the largest rowid of the table,
  and with \<open>AUTOINCREMENT\<close> also more than every rowid the table ever held. When the largest
  rowid is taken the insert fails (\<open>SQLITE_FULL\<close>; for a table without \<open>AUTOINCREMENT\<close>
  SQLite first tries random rowids, which is not modelled).
\<close>

definition new_rowid :: "table \<Rightarrow> int option" where
  "new_rowid t =
     (let base = (case max_rowid (t_rows t) of None \<Rightarrow> 0 | Some m \<Rightarrow> m) in
      if base = MAX_ROWID then None
      else if t_key t = None then Some (base + 1)
      else if t_seq t = MAX_ROWID then None
      else Some (max (base + 1) (t_seq t + 1)))"

text \<open>
  The rowid of the row to insert: a value given for the key column is taken as it is
  (it must be an integer not in use); otherwise it is allocated.
\<close>

definition choose_rowid :: "table \<Rightarrow> cells \<Rightarrow> error + int" where
  "choose_rowid t given =
     (let explicit = (case t_key t of None \<Rightarrow> SNull | Some k \<Rightarrow> cell_value given k) in
      case explicit of
        SNull \<Rightarrow>
          (case new_rowid t of
             None \<Rightarrow> Inl (OperationalError ''database or disk is full'')
           | Some r \<Rightarrow> Inr r)
      | SInt v \<Rightarrow>
          if v \<in> fst ` set (t_rows t) then Inl (IntegrityError ''UNIQUE constraint failed'')
          else Inr v
      | SReal (Fin x) \<Rightarrow>
          if x = of_int \<lfloor>x\<rfloor> \<and> - MAX_ROWID - 1 \<le> \<lfloor>x\<rfloor> \<and> \<lfloor>x\<rfloor> \<le> MAX_ROWID
          then (if \<lfloor>x\<rfloor> \<in> fst ` set (t_rows t)
                then Inl (IntegrityError ''UNIQUE constraint failed'')
                else Inr \<lfloor>x\<rfloor>)
          else Inl (IntegrityError ''datatype mismatch'')
      | _ \<Rightarrow> Inl (IntegrityError ''datatype mismatch''))"

definition fk_satisfied :: "database \<Rightarrow> cells \<Rightarrow> string \<times> string \<times> string \<Rightarrow> bool" where
  "fk_satisfied db given fk =
     (case fk of (c, parent, pc) \<Rightarrow>
        (case cell_value given c of
           SNull \<Rightarrow> True
         | SInt v \<Rightarrow>
             (case lookup_table db parent of
                None \<Rightarrow> False
              | Some p \<Rightarrow> v \<in> fst ` set (t_rows p))
         | _ \<Rightarrow> False))"

definition create_table :: "string \<Rightarrow> table \<Rightarrow> database \<Rightarrow> error + database" where
  "create_table name t db =
     (if name \<in> fst ` set (tables db) then Inr db
      else if name \<in> fst ` set (indexes db)
      then Inl (OperationalError ''there is already an index with this name'')
      else Inr (db\<lparr>tables := tables db @ [(name, t\<lparr>t_seq := 0, t_rows := []\<rparr>)]\<rparr>))"

definition create_index :: "string \<Rightarrow> string \<Rightarrow> string \<Rightarrow> database \<Rightarrow> error + database" where
  "create_index name tname col db =
     (case lookup_table db tname of
        None \<Rightarrow> Inl (OperationalError ''no such table'')
      | Some t \<Rightarrow>
          if name \<in> fst ` set (tables db)
          then Inl (OperationalError ''there is already a table with this name'')
          else if name \<in> fst ` set (indexes db) then Inr db
          else if col \<notin> set (column_names t) then Inl (OperationalError ''no such column'')
          else Inr (db\<lparr>indexes := indexes db @ [(name, tname, col)]\<rparr>))"

definition insert_row ::
  "bool \<Rightarrow> string \<Rightarrow> string list \<Rightarrow> sqlval list \<Rightarrow> database \<Rightarrow> error + (int \<times> cells \<times> database)" where
  "insert_row fk name cols vals db =
     (case lookup_table db name of
        None \<Rightarrow> Inl (OperationalError ''no such table'')
      | Some t \<Rightarrow>
          if \<not> set cols \<subseteq> set (column_names t) then Inl (OperationalError ''no such column'')
          else if fk \<and> (\<exists>(c, parent, pc) \<in> set (t_fks t). lookup_table db parent = None)
          then Inl (OperationalError ''no such table'')
          else if fk \<and> (\<exists>(c, parent, pc) \<in> set (t_fks t).
                           (case lookup_table db parent of
                              None \<Rightarrow> False
                            | Some p \<Rightarrow> t_key p \<noteq> Some pc))
          then Inl (OperationalError ''foreign key mismatch'')
          else
            (let given = zip cols vals in
             case choose_rowid t given of
               Inl e \<Rightarrow> Inl e
             | Inr r \<Rightarrow>
                 if \<exists>(c, notnull) \<in> set (t_cols t). notnull \<and> cell_value given c = SNull
                 then Inl (IntegrityError ''NOT NULL constraint failed'')
                 else
                   (let row = map (\<lambda>(c, _). (c, cell_value given c)) (t_cols t);
                        t' = t\<lparr>t_seq := (if t_key t = None then t_seq t else max (t_seq t) r),
                               t_rows := t_rows t @ [(r, row)]\<rparr>;
                        db' = update_table db name t'
                    in if fk \<and> \<not> (\<forall>f \<in> set (t_fks t). fk_satisfied db' given f)
                       then Inl (IntegrityError ''FOREIGN KEY constraint failed'')
                       else Inr (r, row, db'))))"

text \<open>
  \<open>DELETE FROM name\<close> without a \<open>WHERE\<close> clause. (Rows of other tables that refer to the
  deleted rows would make it fail; the only table the repository empties, \<open>schema_version\<close>,
  is referred to by none of its tables, and that check is not modelled.)
\<close>

definition delete_all :: "string \<Rightarrow> database \<Rightarrow> error + database" where
  "delete_all name db =
     (case lookup_table db name of
        None \<Rightarrow> Inl (OperationalError ''no such table'')
      | Some t \<Rightarrow> Inr (update_table db name (t\<lparr>t_rows := []\<rparr>)))"

text \<open>One statement run by SQLite on a database: the new database and \<open>lastrowid\<close>.\<close>

fun run_stmt :: "bool \<Rightarrow> stmt \<Rightarrow> database \<Rightarrow> error + (int option \<times> database)" where
  "run_stmt fk PragmaForeignKeysOn db = Inr (None, db)"
| "run_stmt fk (CreateTable name t) db = map_sum id (\<lambda>db'. (None, db')) (create_table name t db)"
| "run_stmt fk (CreateIndex name tname col) db =
     map_sum id (\<lambda>db'. (None, db')) (create_index name tname col db)"
| "run_stmt fk (InsertInto name cols vals) db =
     map_sum id (\<lambda>(r, row, db'). (Some r, db')) (insert_row fk name cols vals db)"
| "run_stmt fk (DeleteFrom name) db = map_sum id (\<lambda>db'. (None, db')) (delete_all name db)"

subsection \<open>Connections (Python's sqlite3 module, default transaction control)\<close>

text \<open>
  \<open>disk\<close> is what is committed, \<open>work\<close> what the connection sees. \<open>execute\<close> opens a
  transaction before an \<open>INSERT\<close> or \<open>DELETE\<close> when none is open; other statements run in
  the open transaction, or are committed at once when there is none. \<open>executescript\<close>
  commits an open transaction first and then runs every statement without opening one.
  Closing a connection discards what is not committed: the file then holds \<open>disk\<close>.
\<close>

record conn =
  disk :: database
  work :: database
  in_txn :: bool
  foreign_keys :: bool

definition sqlite_connect :: "database \<Rightarrow> conn" where
  "sqlite_connect db = \<lparr>disk = db, work = db, in_txn = False, foreign_keys = False\<rparr>"

definition commit :: "conn \<Rightarrow> conn" where
  "commit c = c\<lparr>disk := work c, in_txn := False\<rparr>"

definition rollback :: "conn \<Rightarrow> conn" where
  "rollback c = c\<lparr>work := disk c, in_txn := False\<rparr>"

fun is_dml :: "stmt \<Rightarrow> bool" where
  "is_dml (InsertInto _ _ _) = True"
| "is_dml (DeleteFrom _) = True"
| "is_dml _ = False"

definition sqlite_step :: "conn \<Rightarrow> stmt \<Rightarrow> (error + int option) \<times> conn" where
  "sqlite_step c s =
     (if s = PragmaForeignKeysOn
      then (Inr None, if in_txn c then c else c\<lparr>foreign_keys := True\<rparr>)
      else (case run_stmt (foreign_keys c) s (work c) of
              Inl e \<Rightarrow> (Inl e, c)
            | Inr (r, db') \<Rightarrow>
                (Inr r, if in_txn c then c\<lparr>work := db'\<rparr> else c\<lparr>work := db', disk := db'\<rparr>)))"

definition conn_execute :: "conn \<Rightarrow> stmt \<Rightarrow> (error + int option) \<times> conn" where
  "conn_execute c s =
     sqlite_step (if is_dml s \<and> \<not> in_txn c then c\<lparr>in_txn := True\<rparr> else c) s"

fun run_script :: "conn \<Rightarrow> stmt list \<Rightarrow> (error + unit) \<times> conn" where
  "run_script c [] = (Inr (), c)"
| "run_script c (s # ss) =
     (case sqlite_step c s of
        (Inl e, c') \<Rightarrow> (Inl e, c')
      | (Inr _, c') \<Rightarrow> run_script c' ss)"

definition conn_executescript :: "conn \<Rightarrow> stmt list \<Rightarrow> (error + unit) \<times> conn" where
  "conn_executescript c ss = run_script (if in_txn c then commit c else c) ss"


section \<open>Capture pipeline (handshakeos\_e/cli.py)\<close>

text \<open>
  The state the pipeline runs in: the lines still on standard input, the events so far,
  and the connection. A command returns a value or raises, and leaves a state behind in
  both cases; \<open>bind\<close> is sequencing, where an exception skips what follows.
\<close>

record world =
  stdin :: "string list"
  events :: "event list"
  db_conn :: conn

type_synonym 'a cmd = "world \<Rightarrow> (error + 'a) \<times> world"

definition ret :: "'a \<Rightarrow> 'a cmd" where
  "ret a w = (Inr a, w)"

definition raise :: "error \<Rightarrow> 'a cmd" where
  "raise e w = (Inl e, w)"

definition bind :: "'a cmd \<Rightarrow> ('a \<Rightarrow> 'b cmd) \<Rightarrow> 'b cmd" where
  "bind m f w = (case m w of (Inl e, w') \<Rightarrow> (Inl e, w') | (Inr a, w') \<Rightarrow> f a w')"

definition io :: "(string list \<Rightarrow> event list \<Rightarrow> 'a io_result) \<Rightarrow> 'a cmd" where
  "io f w = (case f (stdin w) (events w) of
               (r, rest, out) \<Rightarrow> (r, w\<lparr>stdin := rest, events := out\<rparr>))"

definition say :: "message \<Rightarrow> unit cmd" where
  "say m w = (Inr (), w\<lparr>events := events w @ [Say m]\<rparr>)"

definition execute :: "stmt \<Rightarrow> unit cmd" where
  "execute s w = (case conn_execute (db_conn w) s of
                    (r, c) \<Rightarrow> (map_sum id (\<lambda>_. ()) r, w\<lparr>db_conn := c\<rparr>))"

definition executescript :: "stmt list \<Rightarrow> unit cmd" where
  "executescript ss w = (case conn_executescript (db_conn w) ss of
                           (r, c) \<Rightarrow> (r, w\<lparr>db_conn := c\<rparr>))"

text \<open>\<open>conn.execute("INSERT ...", values).lastrowid\<close>\<close>

definition execute_insert :: "string \<Rightarrow> string list \<Rightarrow> sqlval list \<Rightarrow> int cmd" where
  "execute_insert name cols vals w =
     (case conn_execute (db_conn w) (InsertInto name cols vals) of
        (Inl e, c) \<Rightarrow> (Inl e, w\<lparr>db_conn := c\<rparr>)
      | (Inr None, c) \<Rightarrow> (Inl TypeError, w\<lparr>db_conn := c\<rparr>)
      | (Inr (Some r), c) \<Rightarrow>
          (Inr r, w\<lparr>db_conn := c, events := events w @ [Inserted name r (zip cols vals)]\<rparr>))"

definition conn_commit :: "unit cmd" where
  "conn_commit w = (Inr (), w\<lparr>db_conn := commit (db_conn w)\<rparr>)"

subsection \<open>Schema\<close>

definition new_table :: "(string \<times> bool) list \<Rightarrow> (string \<times> string \<times> string) list \<Rightarrow> table" where
  "new_table cols fks =
     \<lparr>t_key = Some ''id'', t_cols = cols, t_fks = fks, t_seq = 0, t_rows = []\<rparr>"

definition intents_table :: table where
  "intents_table = new_table
     [(''goal'', True), (''constraints'', True), (''success_signal'', True), (''confidence'', True)]
     []"

definition observations_table :: table where
  "observations_table = new_table
     [(''intent_id'', True), (''description'', True), (''domain_signature'', True)]
     [(''intent_id'', ''intents'', ''id'')]"

definition hypotheses_table :: table where
  "hypotheses_table = new_table
     [(''observation_id'', True), (''model_type'', True), (''probability'', True),
      (''falsifiers'', True), (''domain_signature'', True)]
     [(''observation_id'', ''observations'', ''id'')]"

definition tests_table :: table where
  "tests_table = new_table
     [(''hypothesis_id'', True), (''description'', True), (''result'', True), (''evidence'', True)]
     [(''hypothesis_id'', ''hypotheses'', ''id'')]"

definition outcomes_table :: table where
  "outcomes_table = new_table
     [(''observation_id'', True), (''hypothesis_id'', True), (''summary'', True),
      (''evidence_refs'', True)]
     [(''observation_id'', ''observations'', ''id''), (''hypothesis_id'', ''hypotheses'', ''id'')]"

definition pattern_seeds_table :: table where
  "pattern_seeds_table = new_table
     [(''outcome_id'', True), (''trigger'', True), (''invariant'', True),
      (''counterexample'', True), (''best_response'', True), (''domain_signature'', True),
      (''evidence_refs'', True)]
     [(''outcome_id'', ''outcomes'', ''id'')]"

definition schema_script :: "stmt list" where
  "schema_script =
     [CreateTable ''intents'' intents_table,
      CreateTable ''observations'' observations_table,
      CreateTable ''hypotheses'' hypotheses_table,
      CreateTable ''tests'' tests_table,
      CreateTable ''outcomes'' outcomes_table,
      CreateTable ''pattern_seeds'' pattern_seeds_table]"

definition ensure_schema :: "unit cmd" where
  "ensure_schema = bind (execute PragmaForeignKeysOn) (\<lambda>_. executescript schema_script)"

subsection \<open>The session\<close>

record HypothesisInput =
  model_type :: string
  probability :: pyfloat
  falsifiers :: string
  domain_signature :: "mixture_entry list"

record capture_ids =
  intent_id :: int
  observation_id :: int
  hypothesis_ids :: "int list"
  test_id :: int
  outcome_id :: int

text \<open>The values handed to \<open>json.dumps\<close> and to the statement parameters.\<close>

definition mixture_json :: "mixture_entry list \<Rightarrow> json" where
  "mixture_json mv =
     JList (map (\<lambda>e. JObj [(''domain'', JStr (domain e)), (''weight'', JFloat (weight e))]) mv)"

definition refs_json :: "string list \<Rightarrow> json" where
  "refs_json refs = JList (map JStr refs)"

definition sql_of_float :: "pyfloat \<Rightarrow> sqlval" where
  "sql_of_float f = (if f = NaN then SNull else SReal f)"

text \<open>Python list indexing, \<open>xs[i]\<close>.\<close>

definition py_index :: "'a list \<Rightarrow> int \<Rightarrow> 'a option" where
  "py_index xs i =
     (if 0 \<le> i \<and> i < int (length xs) then Some (xs ! nat i)
      else if i < 0 \<and> - int (length xs) \<le> i then Some (xs ! nat (int (length xs) + i))
      else None)"

definition capture_intent :: "builtins \<Rightarrow> int cmd" where
  "capture_intent B =
     bind (io (prompt_text ''Intent goal'' False)) (\<lambda>goal.
     bind (io (prompt_text ''Intent constraints'' False)) (\<lambda>constraints.
     bind (io (prompt_text ''Intent success signal'' False)) (\<lambda>success_signal.
     bind (io (prompt_float B ''Intent confidence'' (Fin 0) (Fin 1))) (\<lambda>confidence.
     execute_insert ''intents''
       [''goal'', ''constraints'', ''success_signal'', ''confidence'']
       [SText goal, SText constraints, SText success_signal, sql_of_float confidence]))))"

definition capture_observation :: "builtins \<Rightarrow> int \<Rightarrow> int cmd" where
  "capture_observation B intent =
     bind (io (prompt_text ''Observation description'' False)) (\<lambda>observation_desc.
     bind (io (prompt_mixture_vector B ''Observation domain signature mixture''))
       (\<lambda>observation_domain_signature.
     execute_insert ''observations''
       [''intent_id'', ''description'', ''domain_signature'']
       [SInt intent, SText observation_desc,
        SText (json_dumps B (mixture_json observation_domain_signature))]))"

text \<open>The prompt labels of the first loop, \<open>f"Hypothesis {index} model type"\<close> and so on.\<close>

definition hypothesis_label :: "int \<Rightarrow> string \<Rightarrow> string" where
  "hypothesis_label index field = ''Hypothesis '' @ str_of_int index @ '' '' @ field"

text \<open>
  The first loop, \<open>for index in range(1, hypothesis_count + 1)\<close>: \<open>k\<close> counts the
  iterations still to run.
\<close>

primrec collect_hypotheses ::
  "builtins \<Rightarrow> nat \<Rightarrow> int \<Rightarrow> HypothesisInput list \<Rightarrow> HypothesisInput list cmd" where
  "collect_hypotheses B 0 = (\<lambda>index hypotheses. ret hypotheses)"
| "collect_hypotheses B (Suc k) = (\<lambda>index hypotheses.
     bind (io (prompt_choice (hypothesis_label index ''model type'')
                 [''me'', ''we'', ''they'', ''system''])) (\<lambda>mt.
     bind (io (prompt_float B (hypothesis_label index ''probability'')
                 (Fin 0) (Fin 1))) (\<lambda>pr.
     bind (io (prompt_text (hypothesis_label index ''falsifiers'') False)) (\<lambda>fa.
     bind (io (prompt_mixture_vector B
                 (hypothesis_label index ''domain signature mixture''))) (\<lambda>ds.
     collect_hypotheses B k (index + 1)
       (hypotheses @ [\<lparr>model_type = mt, probability = pr, falsifiers = fa,
                       domain_signature = ds\<rparr>]))))))"

text \<open>The second loop, \<open>for hypothesis in hypotheses\<close>.\<close>

primrec persist_hypotheses ::
  "builtins \<Rightarrow> int \<Rightarrow> HypothesisInput list \<Rightarrow> int list \<Rightarrow> int list cmd" where
  "persist_hypotheses B observation [] = (\<lambda>ids. ret ids)"
| "persist_hypotheses B observation (hypothesis # rest) = (\<lambda>ids.
     bind (execute_insert ''hypotheses''
             [''observation_id'', ''model_type'', ''probability'', ''falsifiers'',
              ''domain_signature'']
             [SInt observation, SText (model_type hypothesis),
              sql_of_float (probability hypothesis), SText (falsifiers hypothesis),
              SText (json_dumps B (mixture_json (domain_signature hypothesis)))]) (\<lambda>r.
     persist_hypotheses B observation rest (ids @ [r])))"

text \<open>\<open>for idx, hypothesis_id in enumerate(hypothesis_ids, start=1): print(...)\<close>\<close>

primrec print_hypotheses :: "int list \<Rightarrow> nat \<Rightarrow> unit cmd" where
  "print_hypotheses [] = (\<lambda>idx. ret ())"
| "print_hypotheses (h # rest) = (\<lambda>idx.
     bind (say (HypothesisLine idx h)) (\<lambda>_. print_hypotheses rest (Suc idx)))"

definition capture_hypotheses :: "builtins \<Rightarrow> int \<Rightarrow> int list cmd" where
  "capture_hypotheses B observation =
     bind (io (prompt_int B ''Number of hypotheses'' 3 7)) (\<lambda>hypothesis_count.
     bind (collect_hypotheses B (nat hypothesis_count) 1 []) (\<lambda>hypotheses.
     bind (persist_hypotheses B observation hypotheses []) (\<lambda>ids.
     bind (say CapturedHypotheses) (\<lambda>_.
     bind (print_hypotheses ids 1) (\<lambda>_.
     ret ids)))))"

text \<open>The test: returns the tested hypothesis (\<open>test_input.hypothesis_id\<close>) and \<open>test_id\<close>.\<close>

definition capture_test :: "builtins \<Rightarrow> int list \<Rightarrow> (int \<times> int) cmd" where
  "capture_test B ids =
     bind (io (prompt_int B ''Choose hypothesis to test (index)'' 1 (int (length ids))))
       (\<lambda>test_hypothesis_index.
     bind (io (prompt_text ''Test description'' False)) (\<lambda>test_description.
     bind (io (prompt_text ''Test result'' False)) (\<lambda>test_result.
     bind (io (prompt_text ''Test evidence'' False)) (\<lambda>test_evidence.
     (case py_index ids (test_hypothesis_index - 1) of
        None \<Rightarrow> raise IndexError
      | Some hypothesis \<Rightarrow>
          bind (execute_insert ''tests''
                  [''hypothesis_id'', ''description'', ''result'', ''evidence'']
                  [SInt hypothesis, SText test_description, SText test_result,
                   SText test_evidence]) (\<lambda>test.
          ret (hypothesis, test)))))))"

definition capture_outcome :: "builtins \<Rightarrow> int \<Rightarrow> int \<Rightarrow> int \<Rightarrow> int cmd" where
  "capture_outcome B observation hypothesis test =
     bind (say (ProvideOutcomeRefs test)) (\<lambda>_.
     bind (io (prompt_text ''Outcome summary'' False)) (\<lambda>outcome_summary.
     bind (io (prompt_evidence_refs B ''Outcome evidence refs'')) (\<lambda>outcome_refs.
     (let test_ref = ''test:'' @ str_of_int test;
          outcome_refs' = (if test_ref \<notin> set outcome_refs then outcome_refs @ [test_ref]
                           else outcome_refs)
      in execute_insert ''outcomes''
           [''observation_id'', ''hypothesis_id'', ''summary'', ''evidence_refs'']
           [SInt observation, SInt hypothesis, SText outcome_summary,
            SText (json_dumps B (refs_json outcome_refs'))]))))"

definition capture_pattern_seed :: "builtins \<Rightarrow> int \<Rightarrow> int cmd" where
  "capture_pattern_seed B outcome =
     bind (say CapturePatternSeed) (\<lambda>_.
     bind (io (prompt_text ''Pattern trigger'' False)) (\<lambda>trigger.
     bind (io (prompt_text ''Pattern invariant'' False)) (\<lambda>invariant.
     bind (io (prompt_text ''Pattern counterexample'' False)) (\<lambda>counterexample.
     bind (io (prompt_text ''Pattern best response'' False)) (\<lambda>best_response.
     bind (io (prompt_mixture_vector B ''Pattern domain signature mixture''))
       (\<lambda>pattern_domain_signature.
     bind (io (prompt_evidence_refs B ''Pattern evidence refs'')) (\<lambda>pattern_evidence_refs.
     execute_insert ''pattern_seeds''
       [''outcome_id'', ''trigger'', ''invariant'', ''counterexample'', ''best_response'',
        ''domain_signature'', ''evidence_refs'']
       [SInt outcome, SText trigger, SText invariant, SText counterexample,
        SText best_response, SText (json_dumps B (mixture_json pattern_domain_signature)),
        SText (json_dumps B (refs_json pattern_evidence_refs))])))))))"

text \<open>The body of the \<open>try\<close> block of \<open>capture\<close>.\<close>

definition capture_body :: "builtins \<Rightarrow> capture_ids cmd" where
  "capture_body B =
     bind ensure_schema (\<lambda>_.
     bind (capture_intent B) (\<lambda>intent.
     bind (capture_observation B intent) (\<lambda>observation.
     bind (capture_hypotheses B observation) (\<lambda>ids.
     bind (capture_test B ids) (\<lambda>(hypothesis, test).
     bind (capture_outcome B observation hypothesis test) (\<lambda>outcome.
     bind (capture_pattern_seed B outcome) (\<lambda>_.
     bind conn_commit (\<lambda>_.
     ret \<lparr>intent_id = intent, observation_id = observation, hypothesis_ids = ids,
          test_id = test, outcome_id = outcome\<rparr>))))))))"

text \<open>
  \<open>capture\<close> on the database file \<open>db\<close> with the lines \<open>lines\<close> on standard input:
  the value returned or the exception raised, the events of the session, and the
  database file after \<open>conn.close()\<close> in the \<open>finally\<close> clause.
\<close>

definition capture :: "builtins \<Rightarrow> database \<Rightarrow> string list \<Rightarrow> (error + capture_ids) \<times> event list \<times> database" where
  "capture B db lines =
     (case capture_body B \<lparr>stdin = lines, events = [], db_conn = sqlite_connect db\<rparr> of
        (r, w) \<Rightarrow> (r, events w, disk (db_conn w)))"


section \<open>Schema versions (evez-core/evez/schema.py, db.py)\<close>

definition SCHEMA_VERSION :: int where
  "SCHEMA_VERSION = 1"

definition schema_version_table :: table where
  "schema_version_table =
     \<lparr>t_key = None, t_cols = [(''version'', True)], t_fks = [], t_seq = 0, t_rows = []\<rparr>"

definition evez_observations_table :: table where
  "evez_observations_table =
     \<lparr>t_key = Some ''id'',
      t_cols = [(''timestamp'', True), (''content'', True), (''tags'', False), (''location'', False)],
      t_fks = [], t_seq = 0, t_rows = []\<rparr>"

definition schema_statements :: "stmt list" where
  "schema_statements =
     [CreateTable ''schema_version'' schema_version_table,
      CreateTable ''observations'' evez_observations_table,
      CreateIndex ''idx_observations_timestamp'' ''observations'' ''timestamp'',
      CreateIndex ''idx_observations_location'' ''observations'' ''location'']"

definition migration_statements :: "int \<Rightarrow> int \<Rightarrow> error + stmt list" where
  "migration_statements from_version to_version =
     (if from_version = 0 \<and> to_version = 1 then Inr schema_statements
      else Inl (ValueError (''Unsupported migration path '' @ str_of_int from_version
                            @ '' -> '' @ str_of_int to_version)))"

text \<open>
  \<open>SELECT version FROM schema_version ORDER BY version DESC LIMIT 1\<close>: the greatest
  value in SQLite's order (NULL, then numbers, then text), and \<open>int(row[0])\<close> on it.
\<close>

fun sql_class :: "sqlval \<Rightarrow> nat" where
  "sql_class SNull = 0"
| "sql_class (SInt _) = 1"
| "sql_class (SReal _) = 1"
| "sql_class (SText _) = 2"

fun sql_num :: "sqlval \<Rightarrow> pyfloat" where
  "sql_num (SInt i) = Fin (real_of_int i)"
| "sql_num (SReal f) = f"
| "sql_num _ = NaN"

fun str_le :: "string \<Rightarrow> string \<Rightarrow> bool" where
  "str_le [] _ = True"
| "str_le (a # as) [] = False"
| "str_le (a # as) (b # bs) =
     ((of_char a :: nat) < of_char b \<or> (a = b \<and> str_le as bs))"

fun sql_le :: "sqlval \<Rightarrow> sqlval \<Rightarrow> bool" where
  "sql_le SNull _ = True"
| "sql_le (SText a) (SText b) = str_le a b"
| "sql_le (SText a) _ = False"
| "sql_le _ (SText b) = True"
| "sql_le _ SNull = False"
| "sql_le a b = fle (sql_num a) (sql_num b)"

fun sql_greatest :: "sqlval list \<Rightarrow> sqlval option" where
  "sql_greatest [] = None"
| "sql_greatest (v # vs) =
     (case sql_greatest vs of
        None \<Rightarrow> Some v
      | Some m \<Rightarrow> if sql_le m v then Some v else Some m)"

definition column_values :: "table \<Rightarrow> string \<Rightarrow> sqlval list" where
  "column_values t col =
     map (\<lambda>(r, cs). if t_key t = Some col then SInt r else cell_value cs col) (t_rows t)"

definition select_greatest :: "database \<Rightarrow> string \<Rightarrow> string \<Rightarrow> error + sqlval option" where
  "select_greatest db name col =
     (case lookup_table db name of
        None \<Rightarrow> Inl (OperationalError ''no such table'')
      | Some t \<Rightarrow>
          if col \<notin> set (column_names t) then Inl (OperationalError ''no such column'')
          else Inr (sql_greatest (column_values t col)))"

fun int_of_sql :: "builtins \<Rightarrow> sqlval \<Rightarrow> error + int" where
  "int_of_sql B (SInt i) = Inr i"
| "int_of_sql B (SReal (Fin x)) = Inr (if 0 \<le> x then \<lfloor>x\<rfloor> else \<lceil>x\<rceil>)"
| "int_of_sql B (SReal NaN) = Inl (ValueError ''cannot convert float NaN to integer'')"
| "int_of_sql B (SReal _) = Inl OverflowError"
| "int_of_sql B (SText s) =
     (case py_int B s of
        None \<Rightarrow> Inl (ValueError ''invalid literal for int()'')
      | Some i \<Rightarrow> Inr i)"
| "int_of_sql B SNull = Inl TypeError"

definition connect :: "database \<Rightarrow> conn" where
  "connect db = snd (conn_execute (sqlite_connect db) PragmaForeignKeysOn)"

definition ensure_schema_table :: "unit cmd" where
  "ensure_schema_table = execute (CreateTable ''schema_version'' schema_version_table)"

definition get_schema_version :: "builtins \<Rightarrow> int cmd" where
  "get_schema_version B =
     bind ensure_schema_table (\<lambda>_ w.
       (case select_greatest (work (db_conn w)) ''schema_version'' ''version'' of
          Inl e \<Rightarrow> (Inl e, w)
        | Inr None \<Rightarrow> (Inr 0, w)
        | Inr (Some v) \<Rightarrow> (int_of_sql B v, w)))"

definition set_schema_version :: "int \<Rightarrow> unit cmd" where
  "set_schema_version version =
     bind (execute (DeleteFrom ''schema_version'')) (\<lambda>_.
     execute (InsertInto ''schema_version'' [''version''] [SInt version]))"

primrec apply_statements :: "stmt list \<Rightarrow> unit cmd" where
  "apply_statements [] = ret ()"
| "apply_statements (statement # rest) =
     bind (execute statement) (\<lambda>_. apply_statements rest)"

function migrate :: "int \<Rightarrow> int \<Rightarrow> unit cmd" where
  "migrate current to_version =
     (if current < to_version
      then bind (case migration_statements current (current + 1) of
                   Inl e \<Rightarrow> raise e
                 | Inr statements \<Rightarrow> apply_statements statements) (\<lambda>_.
           bind (set_schema_version (current + 1)) (\<lambda>_.
           migrate (current + 1) to_version))
      else ret ())"
  by pat_completeness auto
termination
  by (relation "measure (\<lambda>(current, to_version). nat (to_version - current))") auto

definition initialize_body :: "builtins \<Rightarrow> int cmd" where
  "initialize_body B =
     bind (get_schema_version B) (\<lambda>current_version.
     if current_version > SCHEMA_VERSION
     then raise (RuntimeError (''Database version '' @ str_of_int current_version
                               @ '' is newer than supported '' @ str_of_int SCHEMA_VERSION))
     else bind (if current_version < SCHEMA_VERSION
                then migrate current_version SCHEMA_VERSION else ret ()) (\<lambda>_.
          ret SCHEMA_VERSION))"

text \<open>
  \<open>initialize_db\<close> on the database file \<open>db\<close>: \<open>with connect(db_path) as connection\<close>
  commits when the body returns and rolls back when it raises.
\<close>

definition initialize_db :: "builtins \<Rightarrow> database \<Rightarrow> (error + int) \<times> database" where
  "initialize_db B db =
     (case initialize_body B \<lparr>stdin = [], events = [], db_conn = connect db\<rparr> of
        (Inl e, w) \<Rightarrow> (Inl e, disk (rollback (db_conn w)))
      | (Inr v, w) \<Rightarrow> (Inr v, disk (commit (db_conn w))))"


section \<open>Example inputs\<close>

text \<open>
  The library functions on the texts that the examples below use: on these texts CPython
  returns the values listed (the integer weight is \<open>1\<close> followed by 400 zeros). The
  serialiser agrees with \<open>json.dumps\<close> on lists of strings that need no escaping.
\<close>

definition big_weight_line :: string where
  \<open>big_weight_line =
     ''[{"domain":"ops","weight":1'' @ replicate 400 (CHR ''0'')
     @ ''},{"domain":"risk","weight":"high"}]''\<close>

definition example_json :: "(string \<times> json) list" where
  \<open>example_json =
     [(''[]'', JList []),
      (''["log:1234"]'', JList [JStr ''log:1234'']),
      (''[{"domain":"ops","weight":true}]'',
         JList [JObj [(''domain'', JStr ''ops''), (''weight'', JBool True)]]),
      (''[{"domain":"ops","weight":"high"}]'',
         JList [JObj [(''domain'', JStr ''ops''), (''weight'', JStr ''high'')]]),
      (''[{"weight":0.6}]'',
         JList [JObj [(''weight'', JFloat (Fin (3 / 5)))]]),
      (big_weight_line,
         JList [JObj [(''domain'', JStr ''ops''), (''weight'', JInt (10 ^ 400))],
                JObj [(''domain'', JStr ''risk''), (''weight'', JStr ''high'')]])]\<close>

fun example_dumps_items :: "json list \<Rightarrow> string" where
  \<open>example_dumps_items [] = []\<close>
| \<open>example_dumps_items [JStr s] = ''"'' @ s @ ''"''\<close>
| \<open>example_dumps_items (JStr s # rest) = ''"'' @ s @ ''", '' @ example_dumps_items rest\<close>
| \<open>example_dumps_items (_ # rest) = example_dumps_items rest\<close>

fun example_dumps :: "json \<Rightarrow> string" where
  "example_dumps (JList items) = ''['' @ example_dumps_items items @ '']''"
| "example_dumps _ = []"

definition example_builtins :: builtins where
  "example_builtins =
     \<lparr>py_float = map_of [(''0.8'', Fin (4 / 5)), (''0.5'', Fin (1 / 2)),
                          (''0.3'', Fin (3 / 10)), (''0.2'', Fin (1 / 5))],
      py_int = map_of [(''2'', 2), (''3'', 3), (''8'', 8)],
      json_loads = (\<lambda>raw. case map_of example_json raw of
                             None \<Rightarrow> Inl JSONDecodeError
                           | Some j \<Rightarrow> Inr j),
      json_dumps = example_dumps\<rparr>"

definition empty_db :: database where
  "empty_db = \<lparr>tables = [], indexes = []\<rparr>"

text \<open>The scenario of the specification: three hypotheses, the second one tested.\<close>

definition example_session :: "string list" where
  \<open>example_session =
     [''reduce latency'', ''no downtime'', ''p99<200ms'', ''0.8'',
      ''spike at 14:00'', ''[]'',
      ''3'',
      ''me'', ''0.5'', ''cache was warm'', [],
      ''we'', ''0.3'', ''deploy log is clean'', [],
      ''system'', ''0.2'', ''no upstream alarm'', [],
      ''2'', ''replay the deploy'', ''confirmed'', ''deploy log'',
      ''root cause found'', ''["log:1234"]'',
      ''deploy at peak'', ''latency follows deploys'', ''none seen'', ''deploy off-peak'',
      [], []]\<close>


section \<open>Vocabulary of the properties\<close>

text \<open>
  \<open>only_prompts L E\<close>: the events \<open>E\<close> insert nothing, and every prompt among them has
  a label in \<open>L\<close>. \<open>quiet E\<close>: the events \<open>E\<close> insert nothing.
\<close>

fun allowed_event :: "string set \<Rightarrow> event \<Rightarrow> bool" where
  "allowed_event L (Prompt l) = (l \<in> L)"
| "allowed_event L (Inserted _ _ _) = False"
| "allowed_event L _ = True"

definition only_prompts :: "string set \<Rightarrow> event list \<Rightarrow> bool" where
  "only_prompts L E = list_all (allowed_event L) E"

definition quiet :: "event list \<Rightarrow> bool" where
  "quiet E = only_prompts UNIV E"

text \<open>
  What a prompt loop leaves behind: it appends events to the output, all of them its own
  prompts, the lines read and messages; when it returns a value, the last two events are
  its prompt and the line \<open>line\<close> that was accepted, with \<open>Q line v\<close>.
\<close>

definition loop_result ::
  "string \<Rightarrow> (string \<Rightarrow> 'a \<Rightarrow> bool) \<Rightarrow> event list \<Rightarrow> error + 'a \<Rightarrow> event list \<Rightarrow> bool" where
  "loop_result l Q out r out' =
     (\<exists>E. out' = out @ E \<and> only_prompts {l} E \<and>
          (\<forall>v. r = Inr v \<longrightarrow> (\<exists>E0 line. E = E0 @ [Prompt l, Read line] \<and> Q line v)))"

text \<open>
  The labels of the prompts for the fields of a hypothesis, and all other labels.
  \<open>advanced L w w'\<close>: from \<open>w\<close> to \<open>w'\<close> the connection was not used, and the events
  added are prompts with labels in \<open>L\<close>, lines read and messages.
\<close>

definition hypothesis_labels :: "string set" where
  "hypothesis_labels = {l. take 11 l = ''Hypothesis ''}"

definition other_labels :: "string set" where
  "other_labels = {l. take 11 l \<noteq> ''Hypothesis ''}"

definition advanced :: "string set \<Rightarrow> world \<Rightarrow> world \<Rightarrow> bool" where
  "advanced L w w' =
     (db_conn w' = db_conn w \<and> (\<exists>E. events w' = events w @ E \<and> only_prompts L E))"

text \<open>The events of the \<open>INSERT\<close>s into \<open>hypotheses\<close> that returned the rowids \<open>hs\<close>.\<close>

definition hypothesis_inserts :: "int list \<Rightarrow> cells list \<Rightarrow> event list" where
  "hypothesis_inserts hs cs = map (\<lambda>(h, c). Inserted ''hypotheses'' h c) (zip hs cs)"


definition example_ids :: capture_ids where
  "example_ids = \<lparr>intent_id = 1, observation_id = 1, hypothesis_ids = [1, 2, 3],
                   test_id = 1, outcome_id = 1\<rparr>"

fun is_insert :: "event \<Rightarrow> bool" where
  "is_insert (Inserted _ _ _) = True"
| "is_insert _ = False"

fun is_hypothesis_insert :: "event \<Rightarrow> bool" where
  "is_hypothesis_insert (Inserted name _ _) = (name = ''hypotheses'')"
| "is_hypothesis_insert _ = False"



text \<open>The stored value of a column in a row: the rowid for the key column.\<close>

definition stored_value :: "table \<Rightarrow> int \<times> cells \<Rightarrow> string \<Rightarrow> sqlval" where
  "stored_value t row col =
     (case row of (r, cs) \<Rightarrow> if t_key t = Some col then SInt r else cell_value cs col)"

text \<open>
  \<open>has_row db name r c v\<close>: table \<open>name\<close> of \<open>db\<close> holds a row with rowid \<open>r\<close> whose
  column \<open>c\<close> has the value \<open>v\<close>.
\<close>

definition has_row :: "database \<Rightarrow> string \<Rightarrow> int \<Rightarrow> string \<Rightarrow> sqlval \<Rightarrow> bool" where
  "has_row db name r c v =
     (case lookup_table db name of
        None \<Rightarrow> False
      | Some t \<Rightarrow> list_ex (\<lambda>row. fst row = r \<and> stored_value t row c = v) (t_rows t))"

text \<open>A command that leaves the committed database as it is, whatever it returns.\<close>

definition keeps_disk :: "'a cmd \<Rightarrow> bool" where
  "keeps_disk m = (\<forall>w r w'. m w = (r, w') \<longrightarrow> disk (db_conn w') = disk (db_conn w))"

definition schema_names :: "string list" where
  "schema_names = [''intents'', ''observations'', ''hypotheses'', ''tests'', ''outcomes'',
                   ''pattern_seeds'']"

text \<open>A command that leaves the committed database as it is when it raises.\<close>

definition fails_clean :: "'a cmd \<Rightarrow> bool" where
  "fails_clean m = (\<forall>w e w'. m w = (Inl e, w') \<longrightarrow> disk (db_conn w') = disk (db_conn w))"

text \<open>
  \<open>only_schema_added db db'\<close>: \<open>db'\<close> is \<open>db\<close> with, at most, some of the six tables of
  the capture schema created empty: every table of \<open>db\<close> is in \<open>db'\<close> unchanged, the
  indexes are the same, a table of \<open>db'\<close> that \<open>db\<close> lacks is one of the six and has no
  rows, and when \<open>db\<close> has all six names \<open>db'\<close> is \<open>db\<close>.
\<close>

definition only_schema_added :: "database \<Rightarrow> database \<Rightarrow> bool" where
  "only_schema_added db db' =
     ((\<forall>n t. lookup_table db n = Some t \<longrightarrow> lookup_table db' n = Some t)
      \<and> indexes db' = indexes db
      \<and> (\<forall>n t. lookup_table db' n = Some t \<longrightarrow> lookup_table db n = None \<longrightarrow>
             n \<in> set schema_names \<and> t_rows t = [])
      \<and> (set schema_names \<subseteq> fst ` set (tables db) \<longrightarrow> db' = db))"

text \<open>
  \<open>grown db db'\<close>: every row of \<open>db\<close> is still in \<open>db'\<close>, with the same values.
\<close>

definition grown :: "database \<Rightarrow> database \<Rightarrow> bool" where
  "grown db db' = (\<forall>name r c v. has_row db name r c v \<longrightarrow> has_row db' name r c v)"

text \<open>The store that the example session leaves behind.\<close>

definition example_db :: database where
  "example_db = snd (snd (capture example_builtins empty_db example_session))"

text \<open>
  The schema version recorded on a store, as \<open>get_schema_version\<close> reads it: the greatest
  value of \<open>schema_version.version\<close> converted by \<open>int\<close> (\<open>None\<close> when there is no such
  table or column, no row, or no integer to read).
\<close>

definition recorded_version :: "builtins \<Rightarrow> database \<Rightarrow> int option" where
  "recorded_version B db =
     (case select_greatest db ''schema_version'' ''version'' of
        Inr (Some v) \<Rightarrow> (case int_of_sql B v of Inr i \<Rightarrow> Some i | Inl _ \<Rightarrow> None)
      | _ \<Rightarrow> None)"

text \<open>A store on which a schema version newer than the supported one is recorded.\<close>

definition newer_db :: database where
  "newer_db =
     \<lparr>tables = [(''schema_version'',
                   schema_version_table\<lparr>t_rows := [(1, [(''version'', SInt 2)])]\<rparr>)],
      indexes = []\<rparr>"

text \<open>\<open>main\<close> of evez-core for the \<open>init\<close> command: the exit status and the file.\<close>

definition run_init_status :: "builtins \<Rightarrow> database \<Rightarrow> int \<times> database" where
  "run_init_status B db =
     (case initialize_db B db of
        (Inl e, db') \<Rightarrow> (1, db')
      | (Inr v, db') \<Rightarrow> (0, db'))"


section \<open>Properties of the input collector\<close>

lemma clean_entries_append:
  "clean_entries (xs @ ys) acc =
     (case clean_entries xs acc of Inl e \<Rightarrow> Inl e | Inr c \<Rightarrow> clean_entries ys c)"
  by (induction xs acc rule: clean_entries.induct)
     (auto split: option.splits json.splits sum.splits)

lemma float_of_int_small: "\<bar>i\<bar> \<le> 1 \<Longrightarrow> float_of_int i = Inr (Fin (real_of_int i))"
proof -
  assume a: "\<bar>i\<bar> \<le> 1"
  have "(1::int) < 2 ^ 1024 - 2 ^ 970" by simp
  with a show ?thesis unfolding float_of_int_def by auto
qed

text \<open>
  C10. A mixture-vector entry with a non-empty domain string whose weight is a JSON boolean
  passes the numeric-weight check of \<open>_parse_mixture_vector\<close>, wherever it stands in the
  list: the entries before it having been cleaned, the parser goes on with the rest of the
  list, the entry appended with its weight coerced to float, \<open>1.0\<close> for true and \<open>0.0\<close>
  for false.
\<close>

theorem bool_weight_accepted:
  assumes "raw \<noteq> []"
    and "json_loads B raw = Inr (JList (pre @ JObj kvs # post))"
    and "clean_entries pre [] = Inr cleaned"
    and "dict_get kvs ''domain'' = Some (JStr d)" and "d \<noteq> []"
    and "dict_get kvs ''weight'' = Some (JBool b)"
  shows "parse_mixture_vector B raw =
           clean_entries post (cleaned @ [\<lparr>domain = d, weight = Fin (if b then 1 else 0)\<rparr>])"
proof -
  have f: "float_of_json (JBool b) = Inr (Fin (if b then 1 else 0))"
    using float_of_int_small[of 1] float_of_int_small[of 0] by simp
  have "clean_entries (JObj kvs # post) cleaned =
          clean_entries post (cleaned @ [\<lparr>domain = d, weight = Fin (if b then 1 else 0)\<rparr>])"
    using assms(4-6) f by simp
  then show ?thesis
    using assms(1-3) by (simp add: parse_mixture_vector_def clean_entries_append)
qed

lemma example_loads_bool:
  \<open>json_loads example_builtins ''[{"domain":"ops","weight":true}]'' =
     Inr (JList ([] @ JObj [(''domain'', JStr ''ops''), (''weight'', JBool True)] # []))\<close>
  by (simp add: example_builtins_def example_json_def)

theorem bool_weight_accepted_witness:
  \<open>parse_mixture_vector example_builtins ''[{"domain":"ops","weight":true}]'' =
     Inr [\<lparr>domain = ''ops'', weight = Fin 1\<rparr>]\<close>
  using bool_weight_accepted[OF _ example_loads_bool, of "[]" "''ops''" True]
  by (simp add: dict_get_def)

lemma big_weight_loads:
  "json_loads example_builtins big_weight_line =
     Inr (JList [JObj [(''domain'', JStr ''ops''), (''weight'', JInt (10 ^ 400))],
                 JObj [(''domain'', JStr ''risk''), (''weight'', JStr ''high'')]])"
  by (simp add: example_builtins_def example_json_def big_weight_line_def)

text \<open>
  C7. The collector re-prompts on a \<open>ValueError\<close> only. On the line
  \<open>[{"domain":"ops","weight":1000...0},{"domain":"risk","weight":"high"}]\<close> (the first
  weight an integer of 401 digits) \<open>float(weight)\<close> raises \<open>OverflowError\<close> on the first
  entry: the malformed second entry is never reported, nothing is re-requested, and the
  exception leaves \<open>_prompt_mixture_vector\<close>.
\<close>

theorem overflow_escapes_collector:
  "prompt_mixture_vector example_builtins ''Observation domain signature mixture''
     [big_weight_line] [] =
   (Inl OverflowError, [],
    [Prompt ''Observation domain signature mixture'', Read big_weight_line])"
proof -
  have s: "strip big_weight_line = big_weight_line"
    by code_simp
  have ne: "big_weight_line \<noteq> []"
    by (simp add: big_weight_line_def)
  have big: "\<bar>(10::int) ^ 400\<bar> \<ge> 2 ^ 1024 - 2 ^ 970" by simp
  have "parse_mixture_vector example_builtins big_weight_line = Inl OverflowError"
    using ne big
    by (simp add: parse_mixture_vector_def big_weight_loads dict_get_def float_of_int_def)
  then show ?thesis by (simp add: s)
qed


section \<open>Events of the prompt loops\<close>

lemma only_prompts_Nil [simp]: "only_prompts L []"
  by (simp add: only_prompts_def)

lemma only_prompts_Cons [simp]:
  "only_prompts L (e # E) = (allowed_event L e \<and> only_prompts L E)"
  by (simp add: only_prompts_def)

lemma only_prompts_append [simp]:
  "only_prompts L (E @ F) = (only_prompts L E \<and> only_prompts L F)"
  by (simp add: only_prompts_def)

lemma allowed_event_mono: "allowed_event L e \<Longrightarrow> L \<subseteq> M \<Longrightarrow> allowed_event M e"
  by (cases e) auto

lemma only_prompts_mono: "only_prompts L E \<Longrightarrow> L \<subseteq> M \<Longrightarrow> only_prompts M E"
  by (induction E) (auto intro: allowed_event_mono)

lemma loop_result_eof: "loop_result l Q out (Inl e) (out @ [Prompt l])"
  unfolding loop_result_def by (rule exI[of _ "[Prompt l]"]) simp

lemma loop_result_raise: "loop_result l Q out (Inl e) (out @ [Prompt l, Read line])"
  unfolding loop_result_def by (rule exI[of _ "[Prompt l, Read line]"]) simp

lemma loop_result_accept: "Q line v \<Longrightarrow> loop_result l Q out (Inr v) (out @ [Prompt l, Read line])"
proof -
  assume q: "Q line v"
  have "[Prompt l, Read line] = [] @ [Prompt l, Read line] \<and> Q line v" using q by simp
  then have "\<exists>E0 line'. [Prompt l, Read line] = E0 @ [Prompt l, Read line'] \<and> Q line' v"
    by blast
  then show ?thesis
    unfolding loop_result_def by (intro exI[of _ "[Prompt l, Read line]"]) simp
qed

lemma loop_result_step:
  assumes "loop_result l Q (out @ [Prompt l, Read line, Say m]) r out'"
  shows "loop_result l Q out r out'"
proof -
  from assms obtain E where E: "out' = (out @ [Prompt l, Read line, Say m]) @ E"
    "only_prompts {l} E"
    "\<forall>v. r = Inr v \<longrightarrow> (\<exists>E0 line. E = E0 @ [Prompt l, Read line] \<and> Q line v)"
    unfolding loop_result_def by blast
  let ?X = "[Prompt l, Read line, Say m]"
  have "out' = out @ (?X @ E)" using E(1) by simp
  moreover have "only_prompts {l} (?X @ E)" using E(2) by simp
  moreover have "\<forall>v. r = Inr v \<longrightarrow> (\<exists>E0 line. ?X @ E = E0 @ [Prompt l, Read line] \<and> Q line v)"
  proof (intro allI impI)
    fix v assume "r = Inr v"
    with E(3) obtain E0 line' where "E = E0 @ [Prompt l, Read line']" "Q line' v" by blast
    then have "?X @ E = (?X @ E0) @ [Prompt l, Read line'] \<and> Q line' v" by simp
    then show "\<exists>E0 line. ?X @ E = E0 @ [Prompt l, Read line] \<and> Q line v" by blast
  qed
  ultimately show ?thesis unfolding loop_result_def by blast
qed

lemmas loop_intros = loop_result_eof loop_result_raise loop_result_accept loop_result_step

lemma prompt_text_result:
  "prompt_text l a ins out = (r, rest, out') \<Longrightarrow>
     loop_result l (\<lambda>line v. v = strip line \<and> (v \<noteq> [] \<or> a)) out r out'"
  by (induction ins arbitrary: out)
     (auto simp: Let_def split: if_splits intro: loop_intros)

lemma prompt_choice_result:
  "prompt_choice l opts ins out = (r, rest, out') \<Longrightarrow>
     loop_result l (\<lambda>line v. v = lower (strip line) \<and> v \<in> set opts) out r out'"
  by (induction ins arbitrary: out)
     (auto simp: Let_def split: if_splits intro: loop_intros)

lemma prompt_float_result:
  "prompt_float B l lo hi ins out = (r, rest, out') \<Longrightarrow>
     loop_result l (\<lambda>line v. py_float B (strip line) = Some v \<and> fle lo v \<and> fle v hi) out r out'"
  by (induction ins arbitrary: out)
     (auto simp: Let_def split: if_splits option.splits intro: loop_intros)

lemma prompt_int_result:
  "prompt_int B l lo hi ins out = (r, rest, out') \<Longrightarrow>
     loop_result l (\<lambda>line v. py_int B (strip line) = Some v \<and> lo \<le> v \<and> v \<le> hi) out r out'"
  by (induction ins arbitrary: out)
     (auto simp: Let_def split: if_splits option.splits intro: loop_intros)

lemma prompt_mixture_vector_result:
  "prompt_mixture_vector B l ins out = (r, rest, out') \<Longrightarrow>
     loop_result l (\<lambda>line v. parse_mixture_vector B (strip line) = Inr v) out r out'"
proof (induction ins arbitrary: out)
  case Nil
  then show ?case by (auto intro: loop_intros)
next
  case (Cons line ins)
  show ?case
  proof (cases "parse_mixture_vector B (strip line)")
    case (Inr v)
    with Cons.prems have "r = Inr v" "out' = out @ [Prompt l, Read line]" by simp_all
    with Inr show ?thesis by (simp add: loop_result_accept)
  next
    case (Inl e)
    show ?thesis
    proof (cases "is_ValueError e")
      case True
      with Cons.prems Inl have
        "prompt_mixture_vector B l ins (out @ [Prompt l, Read line, Say (ErrorText (str_of_error e))])
           = (r, rest, out')"
        by simp
      from Cons.IH[OF this] show ?thesis by (rule loop_result_step)
    next
      case False
      with Cons.prems Inl have "r = Inl e" "out' = out @ [Prompt l, Read line]" by simp_all
      then show ?thesis by (simp add: loop_result_raise)
    qed
  qed
qed

lemma prompt_evidence_refs_result:
  "prompt_evidence_refs B l ins out = (r, rest, out') \<Longrightarrow>
     loop_result l (\<lambda>line v. parse_evidence_refs B (strip line) = Inr v) out r out'"
proof (induction ins arbitrary: out)
  case Nil
  then show ?case by (auto intro: loop_intros)
next
  case (Cons line ins)
  show ?case
  proof (cases "parse_evidence_refs B (strip line)")
    case (Inr v)
    with Cons.prems have "r = Inr v" "out' = out @ [Prompt l, Read line]" by simp_all
    with Inr show ?thesis by (simp add: loop_result_accept)
  next
    case (Inl e)
    show ?thesis
    proof (cases "is_ValueError e")
      case True
      with Cons.prems Inl have
        "prompt_evidence_refs B l ins (out @ [Prompt l, Read line, Say (ErrorText (str_of_error e))])
           = (r, rest, out')"
        by simp
      from Cons.IH[OF this] show ?thesis by (rule loop_result_step)
    next
      case False
      with Cons.prems Inl have "r = Inl e" "out' = out @ [Prompt l, Read line]" by simp_all
      then show ?thesis by (simp add: loop_result_raise)
    qed
  qed
qed

section \<open>Rows of the store\<close>

lemma map_of_update:
  "map_of (map (\<lambda>(n, t'). if n = name then (n, t) else (n, t')) xs) k =
     (if k = name then map_option (\<lambda>_. t) (map_of xs k) else map_of xs k)"
  by (induction xs) auto

lemma lookup_update:
  "lookup_table (update_table db name t) k =
     (if k = name then map_option (\<lambda>_. t) (lookup_table db k) else lookup_table db k)"
  by (simp add: lookup_table_def update_table_def map_of_update)

lemma names_update [simp]:
  "map fst (tables (update_table db name t)) = map fst (tables db)"
  by (simp add: update_table_def) (induction "tables db", auto)

lemma indexes_update [simp]: "indexes (update_table db name t) = indexes db"
  by (simp add: update_table_def)

lemma insert_row_Inr:
  assumes "insert_row fk name cols vals db = Inr (r, row, db')"
  shows "\<exists>t. lookup_table db name = Some t
           \<and> set cols \<subseteq> set (column_names t)
           \<and> choose_rowid t (zip cols vals) = Inr r
           \<and> row = map (\<lambda>(c, _). (c, cell_value (zip cols vals) c)) (t_cols t)
           \<and> db' = update_table db name
                  (t\<lparr>t_seq := (if t_key t = None then t_seq t else max (t_seq t) r),
                     t_rows := t_rows t @ [(r, row)]\<rparr>)"
  using assms unfolding insert_row_def
  by (auto simp: Let_def split: option.splits if_splits sum.splits)

lemma cell_value_row:
  "c \<in> fst ` set cs \<Longrightarrow>
     cell_value (map (\<lambda>(c, _). (c, f c)) cs) c = f c"
  by (induction cs) (auto simp: cell_value_def)

lemma choose_rowid_key_int:
  "choose_rowid t given = Inr r \<Longrightarrow> t_key t = Some k \<Longrightarrow> cell_value given k = SInt x
     \<Longrightarrow> r = x"
  by (auto simp: choose_rowid_def split: if_splits)

lemma choose_rowid_key_text:
  "choose_rowid t given = Inr r \<Longrightarrow> t_key t = Some k \<Longrightarrow> cell_value given k \<noteq> SText s"
  by (auto simp: choose_rowid_def split: if_splits)

lemma insert_row_stored:
  assumes "insert_row fk name cols vals db = Inr (r, row, db')"
    and "c \<in> set cols"
    and "cell_value (zip cols vals) c = v"
    and "(\<exists>x. v = SInt x) \<or> (\<exists>s. v = SText s)"
  shows "has_row db' name r c v"
proof -
  from insert_row_Inr[OF assms(1)] obtain t where
    t: "lookup_table db name = Some t" "set cols \<subseteq> set (column_names t)"
      "choose_rowid t (zip cols vals) = Inr r"
      "row = map (\<lambda>(c, _). (c, cell_value (zip cols vals) c)) (t_cols t)"
      "db' = update_table db name
                  (t\<lparr>t_seq := (if t_key t = None then t_seq t else max (t_seq t) r),
                     t_rows := t_rows t @ [(r, row)]\<rparr>)" by blast
  let ?t' = "t\<lparr>t_seq := (if t_key t = None then t_seq t else max (t_seq t) r),
                     t_rows := t_rows t @ [(r, row)]\<rparr>"
  have l: "lookup_table db' name = Some ?t'" using t(1,5) by (simp add: lookup_update)
  have "stored_value ?t' (r, row) c = v"
  proof (cases "t_key t = Some c")
    case True
    with choose_rowid_key_text[OF t(3) True] assms(3,4) obtain x where x: "v = SInt x" by auto
    with choose_rowid_key_int[OF t(3) True] assms(3) have "r = x" by simp
    with True x show ?thesis by (simp add: stored_value_def)
  next
    case False
    with assms(2) t(2) have "c \<in> fst ` set (t_cols t)"
      by (auto simp: column_names_def split: option.splits)
    then have "cell_value row c = v" unfolding t(4) using assms(3) by (simp add: cell_value_row)
    with False show ?thesis by (simp add: stored_value_def)
  qed
  with l show ?thesis by (auto simp: has_row_def list_ex_iff)
qed

lemma stored_value_cong:
  "t_key t' = t_key t \<Longrightarrow> stored_value t' row c = stored_value t row c"
  by (simp add: stored_value_def split: prod.splits)

lemma insert_row_grown:
  assumes "insert_row fk name cols vals db = Inr (r, row, db')"
  shows "grown db db'"
proof -
  from insert_row_Inr[OF assms(1)] obtain t where
    t: "lookup_table db name = Some t"
      "db' = update_table db name
                  (t\<lparr>t_seq := (if t_key t = None then t_seq t else max (t_seq t) r),
                     t_rows := t_rows t @ [(r, row)]\<rparr>)" by blast
  show ?thesis
    unfolding grown_def has_row_def t(2)
    using t(1)
    by (auto simp: lookup_update list_ex_iff stored_value_def split: option.splits)
qed

lemma grown_refl [simp]: "grown db db"
  by (simp add: grown_def)

lemma grown_trans: "grown a b \<Longrightarrow> grown b c \<Longrightarrow> grown a c"
  by (simp add: grown_def)

lemma execute_insert_conn:
  assumes "execute_insert name cols vals w = (Inr r, w')"
  shows "\<exists>row. insert_row (foreign_keys (db_conn w)) name cols vals (work (db_conn w))
                  = Inr (r, row, work (db_conn w'))
             \<and> disk (db_conn w') = disk (db_conn w)"
  using assms
  by (auto simp: execute_insert_def conn_execute_def sqlite_step_def map_sum_def
           split: prod.splits sum.splits option.splits if_splits)

section \<open>Events of the stages of a session\<close>

lemma bind_Inr_E:
  assumes "bind m f w = (Inr b, w')"
  obtains a w1 where "m w = (Inr a, w1)" "f a w1 = (Inr b, w')"
  using assms by (auto simp: bind_def split: prod.splits sum.splits)

lemma advanced_refl [simp]: "advanced L w w"
  by (simp add: advanced_def)

lemma advanced_trans: "advanced L w w1 \<Longrightarrow> advanced L w1 w2 \<Longrightarrow> advanced L w w2"
  unfolding advanced_def
proof (elim conjE exE)
  fix E F
  assume a: "db_conn w1 = db_conn w" "db_conn w2 = db_conn w1"
    "events w1 = events w @ E" "only_prompts L E" "events w2 = events w1 @ F" "only_prompts L F"
  then have "events w2 = events w @ (E @ F) \<and> only_prompts L (E @ F)" by simp
  with a show "db_conn w2 = db_conn w \<and> (\<exists>E. events w2 = events w @ E \<and> only_prompts L E)"
    by metis
qed

lemma advanced_mono: "advanced L w w' \<Longrightarrow> L \<subseteq> M \<Longrightarrow> advanced M w w'"
  unfolding advanced_def by (blast intro: only_prompts_mono)

lemma loop_result_advanced:
  "db_conn w' = db_conn w \<and> loop_result l Q (events w) r (events w') \<Longrightarrow> l \<in> L
     \<Longrightarrow> advanced L w w'"
  unfolding loop_result_def advanced_def
  by (blast intro: only_prompts_mono)

lemma loop_result_last:
  assumes "db_conn w' = db_conn w \<and> loop_result l Q (events w) (Inr v) (events w')" "l \<in> L"
  shows "\<exists>E line. events w' = events w @ E @ [Prompt l, Read line] \<and> only_prompts L E
                  \<and> Q line v \<and> db_conn w' = db_conn w"
proof -
  from assms(1) obtain E where E: "events w' = events w @ E" "only_prompts {l} E"
    "\<exists>E0 line. E = E0 @ [Prompt l, Read line] \<and> Q line v"
    unfolding loop_result_def by blast
  then obtain E0 line where E0: "E = E0 @ [Prompt l, Read line]" "Q line v" by blast
  with E have "only_prompts {l} E0" by simp
  then have "only_prompts L E0" using assms(2) by (auto intro: only_prompts_mono)
  with E E0 assms(1) show ?thesis by auto
qed

lemma io_text:
  "io (prompt_text l a) w = (r, w') \<Longrightarrow>
     db_conn w' = db_conn w \<and>
     loop_result l (\<lambda>line v. v = strip line \<and> (v \<noteq> [] \<or> a)) (events w) r (events w')"
  by (auto simp: io_def split: prod.splits dest: prompt_text_result)

lemma io_choice:
  "io (prompt_choice l opts) w = (r, w') \<Longrightarrow>
     db_conn w' = db_conn w \<and>
     loop_result l (\<lambda>line v. v = lower (strip line) \<and> v \<in> set opts) (events w) r (events w')"
  by (auto simp: io_def split: prod.splits dest: prompt_choice_result)

lemma io_float:
  "io (prompt_float B l lo hi) w = (r, w') \<Longrightarrow>
     db_conn w' = db_conn w \<and>
     loop_result l (\<lambda>line v. py_float B (strip line) = Some v \<and> fle lo v \<and> fle v hi)
       (events w) r (events w')"
  by (auto simp: io_def split: prod.splits dest: prompt_float_result)

lemma io_int:
  "io (prompt_int B l lo hi) w = (r, w') \<Longrightarrow>
     db_conn w' = db_conn w \<and>
     loop_result l (\<lambda>line v. py_int B (strip line) = Some v \<and> lo \<le> v \<and> v \<le> hi)
       (events w) r (events w')"
  by (auto simp: io_def split: prod.splits dest: prompt_int_result)

lemma io_mixture:
  "io (prompt_mixture_vector B l) w = (r, w') \<Longrightarrow>
     db_conn w' = db_conn w \<and>
     loop_result l (\<lambda>line v. parse_mixture_vector B (strip line) = Inr v) (events w) r (events w')"
  by (auto simp: io_def split: prod.splits dest: prompt_mixture_vector_result)

lemma io_refs:
  "io (prompt_evidence_refs B l) w = (r, w') \<Longrightarrow>
     db_conn w' = db_conn w \<and>
     loop_result l (\<lambda>line v. parse_evidence_refs B (strip line) = Inr v) (events w) r (events w')"
  by (auto simp: io_def split: prod.splits dest: prompt_evidence_refs_result)

lemma say_advanced: "say m w = (r, w') \<Longrightarrow> advanced L w w'"
  by (auto simp: say_def advanced_def)

lemma execute_insert_Inr:
  assumes "execute_insert name cols vals w = (Inr r, w')"
  shows "events w' = events w @ [Inserted name r (zip cols vals)]"
  using assms
  by (auto simp: execute_insert_def split: prod.splits sum.splits option.splits)

lemma other_label [simp]: "take 11 l \<noteq> ''Hypothesis '' \<Longrightarrow> l \<in> other_labels"
  by (simp add: other_labels_def)

lemma io_text_adv: "io (prompt_text l a) w = (r, w') \<Longrightarrow> l \<in> L \<Longrightarrow> advanced L w w'"
  using loop_result_advanced[OF io_text] by blast

lemma io_choice_adv: "io (prompt_choice l opts) w = (r, w') \<Longrightarrow> l \<in> L \<Longrightarrow> advanced L w w'"
  using loop_result_advanced[OF io_choice] by blast

lemma io_float_adv: "io (prompt_float B l lo hi) w = (r, w') \<Longrightarrow> l \<in> L \<Longrightarrow> advanced L w w'"
  using loop_result_advanced[OF io_float] by blast

lemma io_int_adv: "io (prompt_int B l lo hi) w = (r, w') \<Longrightarrow> l \<in> L \<Longrightarrow> advanced L w w'"
  using loop_result_advanced[OF io_int] by blast

lemma io_mixture_adv: "io (prompt_mixture_vector B l) w = (r, w') \<Longrightarrow> l \<in> L \<Longrightarrow> advanced L w w'"
  using loop_result_advanced[OF io_mixture] by blast

lemma io_refs_adv: "io (prompt_evidence_refs B l) w = (r, w') \<Longrightarrow> l \<in> L \<Longrightarrow> advanced L w w'"
  using loop_result_advanced[OF io_refs] by blast

lemmas io_adv = io_text_adv io_choice_adv io_float_adv io_int_adv io_mixture_adv io_refs_adv

lemma bind_adv:
  assumes "bind m f w1 = (Inr b, w')" "advanced L w w1"
    "\<And>a w2. m w1 = (Inr a, w2) \<Longrightarrow> advanced L w1 w2"
  obtains a w2 where "advanced L w w2" "f a w2 = (Inr b, w')"
proof -
  from assms(1) obtain a w2 where m: "m w1 = (Inr a, w2)" and f: "f a w2 = (Inr b, w')"
    by (rule bind_Inr_E)
  from advanced_trans[OF assms(2) assms(3)[OF m]] f show ?thesis by (rule that)
qed

lemma advanced_insert:
  assumes "advanced L w w4" "execute_insert name cols vals w4 = (Inr r, w')"
  shows "\<exists>E. events w' = events w @ E @ [Inserted name r (zip cols vals)] \<and> only_prompts L E"
proof -
  from assms(1) obtain E where "events w4 = events w @ E" "only_prompts L E"
    unfolding advanced_def by blast
  with execute_insert_Inr[OF assms(2)] show ?thesis by auto
qed

lemma capture_intent_Inr:
  assumes "capture_intent B w = (Inr i, w')"
  shows "\<exists>E c. events w' = events w @ E @ [Inserted ''intents'' i c] \<and> only_prompts other_labels E"
proof -
  have "advanced other_labels w w" by simp
  with assms have "\<exists>w4 c. advanced other_labels w w4 \<and>
     execute_insert ''intents'' [''goal'', ''constraints'', ''success_signal'', ''confidence''] c w4 = (Inr i, w')"
    unfolding capture_intent_def
    apply -
    apply (erule bind_adv, assumption, erule io_adv, simp add: other_labels_def)
    apply (erule bind_adv, assumption, erule io_adv, simp add: other_labels_def)
    apply (erule bind_adv, assumption, erule io_adv, simp add: other_labels_def)
    apply (erule bind_adv, assumption, erule io_adv, simp add: other_labels_def)
    apply blast
    done
  then show ?thesis using advanced_insert by blast
qed

lemma capture_observation_Inr:
  assumes "capture_observation B intent w = (Inr ob, w')"
  shows "\<exists>E c. events w' = events w @ E @ [Inserted ''observations'' ob c]
           \<and> only_prompts other_labels E \<and> cell_value c ''intent_id'' = SInt intent"
proof -
  have "advanced other_labels w w" by simp
  with assms have "\<exists>w2 d s. advanced other_labels w w2 \<and>
     execute_insert ''observations'' [''intent_id'', ''description'', ''domain_signature'']
       [SInt intent, d, s] w2 = (Inr ob, w')"
    unfolding capture_observation_def
    apply -
    apply (erule bind_adv, assumption, erule io_adv, simp add: other_labels_def)
    apply (erule bind_adv, assumption, erule io_adv, simp add: other_labels_def)
    apply blast
    done
  then obtain w2 d s where a: "advanced other_labels w w2" and
    i: "execute_insert ''observations'' [''intent_id'', ''description'', ''domain_signature'']
       [SInt intent, d, s] w2 = (Inr ob, w')" by blast
  from advanced_insert[OF a i] show ?thesis by (auto simp: cell_value_def)
qed

lemma capture_pattern_seed_Inr:
  assumes "capture_pattern_seed B outcome w = (Inr p, w')"
  shows "\<exists>E c. events w' = events w @ E @ [Inserted ''pattern_seeds'' p c]
           \<and> only_prompts other_labels E \<and> cell_value c ''outcome_id'' = SInt outcome
           \<and> grown (work (db_conn w)) (work (db_conn w'))"
proof -
  have "advanced other_labels w w" by simp
  with assms have "\<exists>w2 v. advanced other_labels w w2 \<and>
     execute_insert ''pattern_seeds''
       [''outcome_id'', ''trigger'', ''invariant'', ''counterexample'', ''best_response'',
        ''domain_signature'', ''evidence_refs'']
       (SInt outcome # v) w2 = (Inr p, w')"
    unfolding capture_pattern_seed_def
    apply -
    apply (erule bind_adv, assumption, erule say_advanced)
    apply (erule bind_adv, assumption, erule io_adv, simp add: other_labels_def)
    apply (erule bind_adv, assumption, erule io_adv, simp add: other_labels_def)
    apply (erule bind_adv, assumption, erule io_adv, simp add: other_labels_def)
    apply (erule bind_adv, assumption, erule io_adv, simp add: other_labels_def)
    apply (erule bind_adv, assumption, erule io_adv, simp add: other_labels_def)
    apply (erule bind_adv, assumption, erule io_adv, simp add: other_labels_def)
    apply blast
    done
  then obtain w2 v where a: "advanced other_labels w w2" and
    i: "execute_insert ''pattern_seeds''
       [''outcome_id'', ''trigger'', ''invariant'', ''counterexample'', ''best_response'',
        ''domain_signature'', ''evidence_refs'']
       (SInt outcome # v) w2 = (Inr p, w')" by blast
  from a have cn: "db_conn w2 = db_conn w" by (simp add: advanced_def)
  from execute_insert_conn[OF i] obtain row where
    "insert_row (foreign_keys (db_conn w2)) ''pattern_seeds''
       [''outcome_id'', ''trigger'', ''invariant'', ''counterexample'', ''best_response'',
        ''domain_signature'', ''evidence_refs'']
       (SInt outcome # v) (work (db_conn w2)) = Inr (p, row, work (db_conn w'))" by blast
  from insert_row_grown[OF this] cn have "grown (work (db_conn w)) (work (db_conn w'))"
    by simp
  with advanced_insert[OF a i] show ?thesis by (auto simp: cell_value_def)
qed

lemma io_last:
  assumes "db_conn w' = db_conn w \<and> loop_result l Q (events w) (Inr v) (events w')"
  shows "\<exists>E line. events w' = events w @ E @ [Prompt l, Read line] \<and> only_prompts {l} E
                  \<and> Q line v \<and> db_conn w' = db_conn w"
  using loop_result_last[OF assms, of "{l}"] by simp

lemma hyp_label_in [simp]: "hypothesis_label i f \<in> hypothesis_labels"
  by (simp add: hypothesis_labels_def hypothesis_label_def)

lemma collect_hypotheses_Inr:
  "collect_hypotheses B k index acc w = (Inr hs, w') \<Longrightarrow>
     \<exists>E. events w' = events w @ E \<and> only_prompts hypothesis_labels E
        \<and> db_conn w' = db_conn w \<and> length hs = length acc + k
        \<and> (\<forall>j<k. Prompt (hypothesis_label (index + int j) ''model type'') \<in> set E)"
proof (induction k arbitrary: index acc w)
  case 0
  then show ?case by (simp add: ret_def)
next
  case (Suc k)
  let ?l = "hypothesis_label index ''model type''"
  from Suc.prems obtain mt w1 where
    s1: "io (prompt_choice ?l [''me'', ''we'', ''they'', ''system'']) w = (Inr mt, w1)" and
    r1: "bind (io (prompt_float B (hypothesis_label index ''probability'') (Fin 0) (Fin 1))) (\<lambda>pr.
         bind (io (prompt_text (hypothesis_label index ''falsifiers'') False)) (\<lambda>fa.
         bind (io (prompt_mixture_vector B (hypothesis_label index ''domain signature mixture''))) (\<lambda>ds.
         collect_hypotheses B k (index + 1)
           (acc @ [\<lparr>model_type = mt, probability = pr, falsifiers = fa,
                     domain_signature = ds\<rparr>])))) w1 = (Inr hs, w')"
    by (simp only: collect_hypotheses.simps) (erule bind_Inr_E)
  from io_last[OF io_choice[OF s1]] obtain E0 line where
    e1: "events w1 = events w @ E0 @ [Prompt ?l, Read line]" "only_prompts {?l} E0"
      "db_conn w1 = db_conn w" by blast
  have a1: "advanced hypothesis_labels w1 w1" by simp
  from r1 a1 have "\<exists>w4 h. advanced hypothesis_labels w1 w4 \<and>
      collect_hypotheses B k (index + 1) (acc @ [h]) w4 = (Inr hs, w')"
    apply -
    apply (erule bind_adv, assumption, erule io_adv, simp)
    apply (erule bind_adv, assumption, erule io_adv, simp)
    apply (erule bind_adv, assumption, erule io_adv, simp)
    apply blast
    done
  then obtain w4 h where a4: "advanced hypothesis_labels w1 w4" and
    c: "collect_hypotheses B k (index + 1) (acc @ [h]) w4 = (Inr hs, w')" by blast
  from a4 obtain E3 where e3: "events w4 = events w1 @ E3" "only_prompts hypothesis_labels E3"
    "db_conn w4 = db_conn w1" unfolding advanced_def by blast
  from Suc.IH[OF c] obtain E' where
    e': "events w' = events w4 @ E'" "only_prompts hypothesis_labels E'"
      "db_conn w' = db_conn w4" "length hs = length (acc @ [h]) + k"
      "\<forall>j<k. Prompt (hypothesis_label (index + 1 + int j) ''model type'') \<in> set E'"
    by blast
  let ?E = "E0 @ [Prompt ?l, Read line] @ E3 @ E'"
  have 1: "events w' = events w @ ?E" using e1 e3 e' by simp
  have "only_prompts hypothesis_labels E0"
    using e1(2) by (rule only_prompts_mono) simp
  then have 2: "only_prompts hypothesis_labels ?E" using e3 e' by simp
  have 3: "db_conn w' = db_conn w" using e1 e3 e' by simp
  have 4: "length hs = length acc + Suc k" using e'(4) by simp
  have 5: "\<forall>j<Suc k. Prompt (hypothesis_label (index + int j) ''model type'') \<in> set ?E"
  proof (intro allI impI)
    fix j assume j: "j < Suc k"
    show "Prompt (hypothesis_label (index + int j) ''model type'') \<in> set ?E"
    proof (cases j)
      case 0
      then show ?thesis by simp
    next
      case (Suc j')
      with j have "j' < k" by simp
      with e'(5) have "Prompt (hypothesis_label (index + 1 + int j') ''model type'') \<in> set E'"
        by blast
      moreover have "index + 1 + int j' = index + int j" using Suc by simp
      ultimately show ?thesis by simp
    qed
  qed
  from 1 2 3 4 5 show ?case by blast
qed

lemma hypothesis_inserts_Nil [simp]: "hypothesis_inserts [] [] = []"
  by (simp add: hypothesis_inserts_def)

lemma hypothesis_inserts_Cons [simp]:
  "hypothesis_inserts (h # hs) (c # cs) = Inserted ''hypotheses'' h c # hypothesis_inserts hs cs"
  by (simp add: hypothesis_inserts_def)

lemma persist_hypotheses_Inr:
  "persist_hypotheses B ob hyps ids w = (Inr hs, w') \<Longrightarrow>
     \<exists>new cs. hs = ids @ new \<and> length new = length hyps \<and> length cs = length hyps
        \<and> events w' = events w @ hypothesis_inserts new cs
        \<and> (\<forall>c\<in>set cs. cell_value c ''observation_id'' = SInt ob)"
proof (induction hyps arbitrary: ids w)
  case Nil
  then have "hs = ids @ [] \<and> events w' = events w @ hypothesis_inserts [] []"
    by (simp add: ret_def)
  then show ?case by (intro exI[of _ "[]"]) simp
next
  case (Cons hyp hyps)
  let ?cols = "[''observation_id'', ''model_type'', ''probability'', ''falsifiers'',
              ''domain_signature'']"
  let ?vals = "[SInt ob, SText (model_type hyp), sql_of_float (probability hyp),
       SText (falsifiers hyp), SText (json_dumps B (mixture_json (domain_signature hyp)))]"
  from Cons.prems obtain r w1 where
    i: "execute_insert ''hypotheses'' ?cols ?vals w = (Inr r, w1)" and
    p: "persist_hypotheses B ob hyps (ids @ [r]) w1 = (Inr hs, w')"
    by (simp only: persist_hypotheses.simps) (erule bind_Inr_E)
  from Cons.IH[OF p] obtain new cs where
    n: "hs = (ids @ [r]) @ new" "length new = length hyps" "length cs = length hyps"
      "events w' = events w1 @ hypothesis_inserts new cs"
      "\<forall>c\<in>set cs. cell_value c ''observation_id'' = SInt ob" by blast
  let ?new = "r # new" and ?cs = "zip ?cols ?vals # cs"
  have "hs = ids @ ?new" "length ?new = length (hyp # hyps)" "length ?cs = length (hyp # hyps)"
    using n by simp_all
  moreover have "events w' = events w @ hypothesis_inserts ?new ?cs"
    using n(4) execute_insert_Inr[OF i] by simp
  moreover have "\<forall>c\<in>set ?cs. cell_value c ''observation_id'' = SInt ob"
    using n(5) by (simp add: cell_value_def)
  ultimately show ?case by blast
qed

lemma print_hypotheses_advanced:
  "print_hypotheses ids idx w = (r, w') \<Longrightarrow> advanced {} w w'"
proof (induction ids arbitrary: idx w)
  case Nil
  then show ?case by (simp add: ret_def)
next
  case (Cons h ids)
  then show ?case
    by (auto simp: bind_def say_def split: prod.splits sum.splits
             dest!: Cons.IH intro: advanced_trans[of _ w "w\<lparr>events := events w @ [Say (HypothesisLine idx h)]\<rparr>"]
             simp: advanced_def)
qed

lemma capture_hypotheses_Inr:
  assumes "capture_hypotheses B ob w = (Inr hs, w')"
  shows "\<exists>E0 line n EC cs EP.
           events w' = events w @ E0 @ [Prompt ''Number of hypotheses'', Read line] @ EC
                         @ hypothesis_inserts hs cs @ EP
         \<and> only_prompts other_labels E0
         \<and> py_int B (strip line) = Some n \<and> 3 \<le> n \<and> n \<le> 7
         \<and> int (length hs) = n \<and> length cs = length hs
         \<and> only_prompts hypothesis_labels EC
         \<and> (\<forall>i. 1 \<le> i \<and> i \<le> n \<longrightarrow> Prompt (hypothesis_label i ''model type'') \<in> set EC)
         \<and> (\<forall>c\<in>set cs. cell_value c ''observation_id'' = SInt ob)
         \<and> only_prompts {} EP"
proof -
  let ?l = "''Number of hypotheses''"
  from assms obtain n w1 hyps w2 ids w3 w4 w5 u1 u2 where
    s1: "io (prompt_int B ?l 3 7) w = (Inr n, w1)" and
    s2: "collect_hypotheses B (nat n) 1 [] w1 = (Inr hyps, w2)" and
    s3: "persist_hypotheses B ob hyps [] w2 = (Inr ids, w3)" and
    s4: "say CapturedHypotheses w3 = (Inr u1, w4)" and
    s5: "print_hypotheses ids 1 w4 = (Inr u2, w5)" and
    s6: "ret ids w5 = (Inr hs, w')"
    unfolding capture_hypotheses_def by (elim bind_Inr_E)
  from s6 have hs: "hs = ids" "w' = w5" by (simp_all add: ret_def)
  from io_last[OF io_int[OF s1]] obtain E0 line where
    e1: "events w1 = events w @ E0 @ [Prompt ?l, Read line]" "only_prompts {?l} E0"
      "py_int B (strip line) = Some n" "3 \<le> n" "n \<le> 7" by blast
  from collect_hypotheses_Inr[OF s2] obtain EC where
    e2: "events w2 = events w1 @ EC" "only_prompts hypothesis_labels EC"
      "length hyps = nat n"
      "\<forall>j<nat n. Prompt (hypothesis_label (1 + int j) ''model type'') \<in> set EC" by auto
  from persist_hypotheses_Inr[OF s3] obtain cs where
    e3: "length ids = length hyps" "length cs = length hyps"
      "events w3 = events w2 @ hypothesis_inserts ids cs"
      "\<forall>c\<in>set cs. cell_value c ''observation_id'' = SInt ob" by auto
  from advanced_trans[OF say_advanced[OF s4] print_hypotheses_advanced[OF s5]]
  obtain EP where e5: "events w5 = events w3 @ EP" "only_prompts {} EP"
    unfolding advanced_def by blast
  have 1: "events w' = events w @ E0 @ [Prompt ?l, Read line] @ EC @ hypothesis_inserts hs cs @ EP"
    using hs e1(1) e2(1) e3(3) e5(1) by simp
  have 2: "only_prompts other_labels E0"
    using e1(2) by (rule only_prompts_mono) (simp add: other_labels_def)
  have 3: "int (length hs) = n" "length cs = length hs"
    using hs e3 e2(3) e1(4) by simp_all
  have 4: "\<forall>i. 1 \<le> i \<and> i \<le> n \<longrightarrow> Prompt (hypothesis_label i ''model type'') \<in> set EC"
  proof (intro allI impI)
    fix i :: int assume i: "1 \<le> i \<and> i \<le> n"
    then have "nat (i - 1) < nat n" by simp
    with e2(4) have "Prompt (hypothesis_label (1 + int (nat (i - 1))) ''model type'') \<in> set EC"
      by blast
    moreover have "1 + int (nat (i - 1)) = i" using i by simp
    ultimately show "Prompt (hypothesis_label i ''model type'') \<in> set EC" by simp
  qed
  from 1 2 3 4 e1(3-5) e2(2) e3(4) e5(2) hs show ?thesis by blast
qed

lemma capture_test_Inr:
  assumes "capture_test B ids w = (Inr (h, t), w')"
  shows "\<exists>E0 line k E1 c.
           events w' = events w @ E0 @ [Prompt ''Choose hypothesis to test (index)'', Read line]
                         @ E1 @ [Inserted ''tests'' t c]
         \<and> only_prompts other_labels E0 \<and> only_prompts other_labels E1
         \<and> py_int B (strip line) = Some k \<and> 1 \<le> k \<and> k \<le> int (length ids)
         \<and> h = ids ! nat (k - 1)
         \<and> cell_value c ''hypothesis_id'' = SInt h
         \<and> grown (work (db_conn w)) (work (db_conn w'))
         \<and> has_row (work (db_conn w')) ''tests'' t ''hypothesis_id'' (SInt h)"
proof -
  let ?l = "''Choose hypothesis to test (index)''"
  from assms obtain k w1 where
    s1: "io (prompt_int B ?l 1 (int (length ids))) w = (Inr k, w1)" and
    r1: "bind (io (prompt_text ''Test description'' False)) (\<lambda>test_description.
         bind (io (prompt_text ''Test result'' False)) (\<lambda>test_result.
         bind (io (prompt_text ''Test evidence'' False)) (\<lambda>test_evidence.
         (case py_index ids (k - 1) of
            None \<Rightarrow> raise IndexError
          | Some hypothesis \<Rightarrow>
              bind (execute_insert ''tests''
                      [''hypothesis_id'', ''description'', ''result'', ''evidence'']
                      [SInt hypothesis, SText test_description, SText test_result,
                       SText test_evidence]) (\<lambda>test.
              ret (hypothesis, test)))))) w1 = (Inr (h, t), w')"
    unfolding capture_test_def by (erule bind_Inr_E)
  from io_last[OF io_int[OF s1]] obtain E0 line where
    e1: "events w1 = events w @ E0 @ [Prompt ?l, Read line]" "only_prompts {?l} E0"
      "py_int B (strip line) = Some k" "1 \<le> k" "k \<le> int (length ids)" by blast
  then have ix: "py_index ids (k - 1) = Some (ids ! nat (k - 1))"
    by (simp add: py_index_def)
  have a1: "advanced other_labels w1 w1" by simp
  from r1 a1 have "\<exists>w4 d r e. advanced other_labels w1 w4 \<and>
      bind (execute_insert ''tests''
              [''hypothesis_id'', ''description'', ''result'', ''evidence'']
              [SInt (ids ! nat (k - 1)), d, r, e]) (\<lambda>test.
            ret (ids ! nat (k - 1), test)) w4 = (Inr (h, t), w')"
    apply -
    apply (erule bind_adv, assumption, erule io_adv, simp add: other_labels_def)
    apply (erule bind_adv, assumption, erule io_adv, simp add: other_labels_def)
    apply (erule bind_adv, assumption, erule io_adv, simp add: other_labels_def)
    apply (simp add: ix)
    apply blast
    done
  then obtain w4 d r e where a4: "advanced other_labels w1 w4" and
    b: "bind (execute_insert ''tests''
              [''hypothesis_id'', ''description'', ''result'', ''evidence'']
              [SInt (ids ! nat (k - 1)), d, r, e]) (\<lambda>test.
            ret (ids ! nat (k - 1), test)) w4 = (Inr (h, t), w')" by blast
  from b obtain t' w5 where
    i: "execute_insert ''tests'' [''hypothesis_id'', ''description'', ''result'', ''evidence'']
              [SInt (ids ! nat (k - 1)), d, r, e] w4 = (Inr t', w5)" and
    r: "ret (ids ! nat (k - 1), t') w5 = (Inr (h, t), w')"
    by (erule bind_Inr_E)
  from r have ht: "h = ids ! nat (k - 1)" "t' = t" "w5 = w'" by (simp_all add: ret_def)
  from advanced_insert[OF a4 i] obtain E1 where
    e4: "events w5 = events w1 @ E1 @ [Inserted ''tests'' t'
           (zip [''hypothesis_id'', ''description'', ''result'', ''evidence'']
                [SInt (ids ! nat (k - 1)), d, r, e])]"
      "only_prompts other_labels E1" by blast
  have 1: "events w' = events w @ E0 @ [Prompt ?l, Read line] @ E1 @ [Inserted ''tests'' t
           (zip [''hypothesis_id'', ''description'', ''result'', ''evidence'']
                [SInt h, d, r, e])]"
    using e1(1) e4(1) ht by simp
  have 2: "only_prompts other_labels E0"
    using e1(2) by (rule only_prompts_mono) (simp add: other_labels_def)
  have 3: "cell_value (zip [''hypothesis_id'', ''description'', ''result'', ''evidence'']
                [SInt h, d, r, e]) ''hypothesis_id'' = SInt h"
    by (simp add: cell_value_def)
  from io_last[OF io_int[OF s1]] have cn1: "db_conn w1 = db_conn w" by blast
  from a4 have cn4: "db_conn w4 = db_conn w1" by (simp add: advanced_def)
  from execute_insert_conn[OF i] obtain row where
    ir: "insert_row (foreign_keys (db_conn w4)) ''tests''
           [''hypothesis_id'', ''description'', ''result'', ''evidence'']
           [SInt (ids ! nat (k - 1)), d, r, e] (work (db_conn w4))
         = Inr (t', row, work (db_conn w5))" by blast
  have 4: "has_row (work (db_conn w')) ''tests'' t ''hypothesis_id'' (SInt h)"
    using insert_row_stored[OF ir, of "''hypothesis_id''" "SInt (ids ! nat (k - 1))"] ht
    by (simp add: cell_value_def)
  have 5: "grown (work (db_conn w)) (work (db_conn w'))"
    using insert_row_grown[OF ir] cn1 cn4 ht by simp
  from 1 2 3 4 5 e1(3-5) e4(2) ht(1) show ?thesis by blast
qed

lemma capture_outcome_Inr:
  assumes "capture_outcome B ob h t w = (Inr oc, w')"
  shows "\<exists>E line refs c.
           events w' = events w @ E @ [Prompt ''Outcome evidence refs'', Read line,
                                       Inserted ''outcomes'' oc c]
         \<and> only_prompts other_labels E
         \<and> parse_evidence_refs B (strip line) = Inr refs
         \<and> cell_value c ''observation_id'' = SInt ob
         \<and> cell_value c ''hypothesis_id'' = SInt h
         \<and> cell_value c ''evidence_refs'' =
             SText (json_dumps B (refs_json
               (if ''test:'' @ str_of_int t \<in> set refs then refs
                else refs @ [''test:'' @ str_of_int t])))
         \<and> grown (work (db_conn w)) (work (db_conn w'))
         \<and> has_row (work (db_conn w')) ''outcomes'' oc ''observation_id'' (SInt ob)
         \<and> has_row (work (db_conn w')) ''outcomes'' oc ''hypothesis_id'' (SInt h)
         \<and> has_row (work (db_conn w')) ''outcomes'' oc ''evidence_refs''
               (SText (json_dumps B (refs_json
                  (if ''test:'' @ str_of_int t \<in> set refs then refs
                   else refs @ [''test:'' @ str_of_int t]))))"
proof -
  let ?l = "''Outcome evidence refs''"
  let ?cols = "[''observation_id'', ''hypothesis_id'', ''summary'', ''evidence_refs'']"
  have a0: "advanced other_labels w w" by simp
  from assms a0 have "\<exists>w2 summ. advanced other_labels w w2 \<and>
      bind (io (prompt_evidence_refs B ?l)) (\<lambda>outcome_refs.
        (let test_ref = ''test:'' @ str_of_int t;
             outcome_refs' = (if test_ref \<notin> set outcome_refs then outcome_refs @ [test_ref]
                              else outcome_refs)
         in execute_insert ''outcomes'' ?cols
              [SInt ob, SInt h, SText summ, SText (json_dumps B (refs_json outcome_refs'))]))
        w2 = (Inr oc, w')"
    unfolding capture_outcome_def
    apply -
    apply (erule bind_adv, assumption, erule say_advanced)
    apply (erule bind_adv, assumption, erule io_adv, simp add: other_labels_def)
    apply blast
    done
  then obtain w2 summ refs w3 where a2: "advanced other_labels w w2" and
    s3: "io (prompt_evidence_refs B ?l) w2 = (Inr refs, w3)" and
    i: "(let test_ref = ''test:'' @ str_of_int t;
             outcome_refs' = (if test_ref \<notin> set refs then refs @ [test_ref] else refs)
         in execute_insert ''outcomes'' ?cols
              [SInt ob, SInt h, SText summ, SText (json_dumps B (refs_json outcome_refs'))])
        w3 = (Inr oc, w')"
    by (elim exE conjE bind_Inr_E)
  let ?final = "if ''test:'' @ str_of_int t \<in> set refs then refs else refs @ [''test:'' @ str_of_int t]"
  let ?vals = "[SInt ob, SInt h, SText summ, SText (json_dumps B (refs_json ?final))]"
  from i have i': "execute_insert ''outcomes'' ?cols ?vals w3 = (Inr oc, w')"
    by (simp add: Let_def split: if_splits)
  from a2 obtain E2 where e2: "events w2 = events w @ E2" "only_prompts other_labels E2"
    unfolding advanced_def by blast
  from io_last[OF io_refs[OF s3]] obtain E3 line where
    e3: "events w3 = events w2 @ E3 @ [Prompt ?l, Read line]" "only_prompts {?l} E3"
      "parse_evidence_refs B (strip line) = Inr refs" by blast
  have o3: "only_prompts other_labels E3"
    using e3(2) by (rule only_prompts_mono) (simp add: other_labels_def)
  have 1: "events w' = events w @ (E2 @ E3) @ [Prompt ?l, Read line,
             Inserted ''outcomes'' oc (zip ?cols ?vals)]"
    using execute_insert_Inr[OF i'] e2(1) e3(1) by simp
  have 2: "only_prompts other_labels (E2 @ E3)" using e2(2) o3 by simp
  have 3: "cell_value (zip ?cols ?vals) ''observation_id'' = SInt ob"
    "cell_value (zip ?cols ?vals) ''hypothesis_id'' = SInt h"
    "cell_value (zip ?cols ?vals) ''evidence_refs'' = SText (json_dumps B (refs_json ?final))"
    by (simp_all add: cell_value_def)
  from a2 have cn2: "db_conn w2 = db_conn w" by (simp add: advanced_def)
  from io_last[OF io_refs[OF s3]] have cn3: "db_conn w3 = db_conn w2" by blast
  from execute_insert_conn[OF i'] obtain row where
    ir: "insert_row (foreign_keys (db_conn w3)) ''outcomes'' ?cols ?vals (work (db_conn w3))
         = Inr (oc, row, work (db_conn w'))" by blast
  have 4: "grown (work (db_conn w)) (work (db_conn w'))"
    using insert_row_grown[OF ir] cn2 cn3 by simp
  have 5: "has_row (work (db_conn w')) ''outcomes'' oc ''observation_id'' (SInt ob)"
    using insert_row_stored[OF ir, of "''observation_id''" "SInt ob"]
    by (simp add: cell_value_def)
  have 6: "has_row (work (db_conn w')) ''outcomes'' oc ''hypothesis_id'' (SInt h)"
    using insert_row_stored[OF ir, of "''hypothesis_id''" "SInt h"]
    by (simp add: cell_value_def)
  have 7: "has_row (work (db_conn w')) ''outcomes'' oc ''evidence_refs''
             (SText (json_dumps B (refs_json ?final)))"
    using insert_row_stored[OF ir, of "''evidence_refs''"
             "SText (json_dumps B (refs_json ?final))"]
    by (simp add: cell_value_def)
  from 1 2 3 4 5 6 7 e3(3) show ?thesis by blast
qed

lemma ensure_schema_events: "ensure_schema w = (r, w') \<Longrightarrow> events w' = events w"
  by (auto simp: ensure_schema_def bind_def execute_def executescript_def
           split: prod.splits sum.splits)

lemma conn_commit_events: "conn_commit w = (r, w') \<Longrightarrow> events w' = events w"
  by (auto simp: conn_commit_def)

text \<open>The events of a completed session, stage by stage.\<close>

lemma capture_body_Inr:
  assumes "capture_body B w = (Inr ids, w')"
  shows "\<exists>E1 c1 E2 c2 E3 line3 n EC cs EP E4 line4 k E5 c4 E6 line6 refs c5 E7 p c6.
     events w' = events w
        @ E1 @ [Inserted ''intents'' (intent_id ids) c1]
        @ E2 @ [Inserted ''observations'' (observation_id ids) c2]
        @ E3 @ [Prompt ''Number of hypotheses'', Read line3] @ EC
        @ hypothesis_inserts (hypothesis_ids ids) cs @ EP
        @ E4 @ [Prompt ''Choose hypothesis to test (index)'', Read line4]
        @ E5 @ [Inserted ''tests'' (test_id ids) c4]
        @ E6 @ [Prompt ''Outcome evidence refs'', Read line6,
                Inserted ''outcomes'' (outcome_id ids) c5]
        @ E7 @ [Inserted ''pattern_seeds'' p c6]
   \<and> only_prompts other_labels E1 \<and> only_prompts other_labels E2
   \<and> only_prompts other_labels E3 \<and> only_prompts hypothesis_labels EC
   \<and> only_prompts {} EP \<and> only_prompts other_labels E4 \<and> only_prompts other_labels E5
   \<and> only_prompts other_labels E6 \<and> only_prompts other_labels E7
   \<and> cell_value c2 ''intent_id'' = SInt (intent_id ids)
   \<and> py_int B (strip line3) = Some n \<and> 3 \<le> n \<and> n \<le> 7
   \<and> int (length (hypothesis_ids ids)) = n \<and> length cs = length (hypothesis_ids ids)
   \<and> (\<forall>i. 1 \<le> i \<and> i \<le> n \<longrightarrow> Prompt (hypothesis_label i ''model type'') \<in> set EC)
   \<and> (\<forall>c\<in>set cs. cell_value c ''observation_id'' = SInt (observation_id ids))
   \<and> py_int B (strip line4) = Some k \<and> 1 \<le> k \<and> k \<le> int (length (hypothesis_ids ids))
   \<and> cell_value c4 ''hypothesis_id'' = SInt (hypothesis_ids ids ! nat (k - 1))
   \<and> parse_evidence_refs B (strip line6) = Inr refs
   \<and> cell_value c5 ''observation_id'' = SInt (observation_id ids)
   \<and> cell_value c5 ''hypothesis_id'' = SInt (hypothesis_ids ids ! nat (k - 1))
   \<and> cell_value c5 ''evidence_refs'' =
        SText (json_dumps B (refs_json
          (if ''test:'' @ str_of_int (test_id ids) \<in> set refs then refs
           else refs @ [''test:'' @ str_of_int (test_id ids)])))
   \<and> cell_value c6 ''outcome_id'' = SInt (outcome_id ids)
   \<and> has_row (disk (db_conn w')) ''tests'' (test_id ids) ''hypothesis_id''
         (SInt (hypothesis_ids ids ! nat (k - 1)))
   \<and> has_row (disk (db_conn w')) ''outcomes'' (outcome_id ids) ''observation_id''
         (SInt (observation_id ids))
   \<and> has_row (disk (db_conn w')) ''outcomes'' (outcome_id ids) ''hypothesis_id''
         (SInt (hypothesis_ids ids ! nat (k - 1)))
   \<and> has_row (disk (db_conn w')) ''outcomes'' (outcome_id ids) ''evidence_refs''
         (SText (json_dumps B (refs_json
            (if ''test:'' @ str_of_int (test_id ids) \<in> set refs then refs
             else refs @ [''test:'' @ str_of_int (test_id ids)]))))"
proof -
  from assms obtain u0 w0 i w1 ob w2 hs w3 ht w4 where
    s0: "ensure_schema w = (Inr u0, w0)" and
    s1: "capture_intent B w0 = (Inr i, w1)" and
    s2: "capture_observation B i w1 = (Inr ob, w2)" and
    s3: "capture_hypotheses B ob w2 = (Inr hs, w3)" and
    s4: "capture_test B hs w3 = (Inr ht, w4)" and
    r4: "(case ht of (hypothesis, test) \<Rightarrow>
           bind (capture_outcome B ob hypothesis test) (\<lambda>outcome.
           bind (capture_pattern_seed B outcome) (\<lambda>_.
           bind conn_commit (\<lambda>_.
           ret \<lparr>intent_id = i, observation_id = ob, hypothesis_ids = hs,
                test_id = test, outcome_id = outcome\<rparr>)))) w4 = (Inr ids, w')"
    unfolding capture_body_def by (elim bind_Inr_E)
  obtain h t where ht: "ht = (h, t)" by (cases ht)
  from r4 ht obtain oc w5 p w6 u7 w7 where
    s5: "capture_outcome B ob h t w4 = (Inr oc, w5)" and
    s6: "capture_pattern_seed B oc w5 = (Inr p, w6)" and
    s7: "conn_commit w6 = (Inr u7, w7)" and
    s8: "ret \<lparr>intent_id = i, observation_id = ob, hypothesis_ids = hs,
                test_id = t, outcome_id = oc\<rparr> w7 = (Inr ids, w')"
    by (simp only: prod.case) (elim bind_Inr_E)
  from s8 have ids: "ids = \<lparr>intent_id = i, observation_id = ob, hypothesis_ids = hs,
                test_id = t, outcome_id = oc\<rparr>" and w7: "w7 = w'"
    by (simp_all add: ret_def)
  note e0 = ensure_schema_events[OF s0]
  from capture_intent_Inr[OF s1] obtain E1 c1 where
    e1: "events w1 = events w0 @ E1 @ [Inserted ''intents'' i c1]"
      "only_prompts other_labels E1" by blast
  from capture_observation_Inr[OF s2] obtain E2 c2 where
    e2: "events w2 = events w1 @ E2 @ [Inserted ''observations'' ob c2]"
      "only_prompts other_labels E2" "cell_value c2 ''intent_id'' = SInt i" by blast
  from capture_hypotheses_Inr[OF s3] obtain E3 line3 n EC cs EP where
    e3: "events w3 = events w2 @ E3 @ [Prompt ''Number of hypotheses'', Read line3] @ EC
                         @ hypothesis_inserts hs cs @ EP"
      "only_prompts other_labels E3"
      "py_int B (strip line3) = Some n" "3 \<le> n" "n \<le> 7"
      "int (length hs) = n" "length cs = length hs"
      "only_prompts hypothesis_labels EC"
      "\<forall>i. 1 \<le> i \<and> i \<le> n \<longrightarrow> Prompt (hypothesis_label i ''model type'') \<in> set EC"
      "\<forall>c\<in>set cs. cell_value c ''observation_id'' = SInt ob"
      "only_prompts {} EP" by blast
  from capture_test_Inr[OF s4[unfolded ht]] obtain E4 line4 k E5 c4 where
    e4: "events w4 = events w3 @ E4 @ [Prompt ''Choose hypothesis to test (index)'', Read line4]
                         @ E5 @ [Inserted ''tests'' t c4]"
      "only_prompts other_labels E4" "only_prompts other_labels E5"
      "py_int B (strip line4) = Some k" "1 \<le> k" "k \<le> int (length hs)"
      "h = hs ! nat (k - 1)"
      "cell_value c4 ''hypothesis_id'' = SInt h"
      "has_row (work (db_conn w4)) ''tests'' t ''hypothesis_id'' (SInt h)" by blast
  from capture_outcome_Inr[OF s5] obtain E6 line6 refs c5 where
    e5: "events w5 = events w4 @ E6 @ [Prompt ''Outcome evidence refs'', Read line6,
                                       Inserted ''outcomes'' oc c5]"
      "only_prompts other_labels E6"
      "parse_evidence_refs B (strip line6) = Inr refs"
      "cell_value c5 ''observation_id'' = SInt ob"
      "cell_value c5 ''hypothesis_id'' = SInt h"
      "cell_value c5 ''evidence_refs'' =
             SText (json_dumps B (refs_json
               (if ''test:'' @ str_of_int t \<in> set refs then refs
                else refs @ [''test:'' @ str_of_int t])))"
      "grown (work (db_conn w4)) (work (db_conn w5))"
      "has_row (work (db_conn w5)) ''outcomes'' oc ''observation_id'' (SInt ob)"
      "has_row (work (db_conn w5)) ''outcomes'' oc ''hypothesis_id'' (SInt h)"
      "has_row (work (db_conn w5)) ''outcomes'' oc ''evidence_refs''
               (SText (json_dumps B (refs_json
                  (if ''test:'' @ str_of_int t \<in> set refs then refs
                   else refs @ [''test:'' @ str_of_int t]))))" by blast
  from capture_pattern_seed_Inr[OF s6] obtain E7 c6 where
    e6: "events w6 = events w5 @ E7 @ [Inserted ''pattern_seeds'' p c6]"
      "only_prompts other_labels E7" "cell_value c6 ''outcome_id'' = SInt oc"
      "grown (work (db_conn w5)) (work (db_conn w6))" by blast
  note e7 = conn_commit_events[OF s7]
  from s7 w7 have dk: "disk (db_conn w') = work (db_conn w6)"
    by (auto simp: conn_commit_def commit_def)
  have g46: "grown (work (db_conn w4)) (work (db_conn w6))"
    using e5(7) e6(4) by (rule grown_trans)
  have p1: "has_row (disk (db_conn w')) ''tests'' t ''hypothesis_id'' (SInt h)"
    using e4(9) g46 unfolding dk grown_def by blast
  have p2: "has_row (disk (db_conn w')) ''outcomes'' oc ''observation_id'' (SInt ob)"
    "has_row (disk (db_conn w')) ''outcomes'' oc ''hypothesis_id'' (SInt h)"
    "has_row (disk (db_conn w')) ''outcomes'' oc ''evidence_refs''
               (SText (json_dumps B (refs_json
                  (if ''test:'' @ str_of_int t \<in> set refs then refs
                   else refs @ [''test:'' @ str_of_int t]))))"
    using e5(8-10) e6(4) unfolding dk grown_def by blast+
  have ev: "events w' = events w
        @ E1 @ [Inserted ''intents'' (intent_id ids) c1]
        @ E2 @ [Inserted ''observations'' (observation_id ids) c2]
        @ E3 @ [Prompt ''Number of hypotheses'', Read line3] @ EC
        @ hypothesis_inserts (hypothesis_ids ids) cs @ EP
        @ E4 @ [Prompt ''Choose hypothesis to test (index)'', Read line4]
        @ E5 @ [Inserted ''tests'' (test_id ids) c4]
        @ E6 @ [Prompt ''Outcome evidence refs'', Read line6,
                Inserted ''outcomes'' (outcome_id ids) c5]
        @ E7 @ [Inserted ''pattern_seeds'' p c6]"
    using e0 e1(1) e2(1) e3(1) e4(1) e5(1) e6(1) e7 w7 by (simp add: ids)
  have sel: "intent_id ids = i" "observation_id ids = ob" "hypothesis_ids ids = hs"
    "test_id ids = t" "outcome_id ids = oc" by (simp_all add: ids)
  show ?thesis
    apply (rule exI[of _ E1], rule exI[of _ c1], rule exI[of _ E2], rule exI[of _ c2])
    apply (rule exI[of _ E3], rule exI[of _ line3], rule exI[of _ n], rule exI[of _ EC])
    apply (rule exI[of _ cs], rule exI[of _ EP], rule exI[of _ E4], rule exI[of _ line4])
    apply (rule exI[of _ k], rule exI[of _ E5], rule exI[of _ c4], rule exI[of _ E6])
    apply (rule exI[of _ line6], rule exI[of _ refs], rule exI[of _ c5], rule exI[of _ E7])
    apply (rule exI[of _ p], rule exI[of _ c6])
    apply (intro conjI)
    using ev e1(2) e2(2,3) e3(2-11) e4(2-8) e5(2-6) e6(2,3) p1 p2
    apply (simp_all only: sel)
    done
qed

section \<open>Properties of completed sessions\<close>

lemma example_completes:
  "fst (capture example_builtins empty_db example_session) = Inr example_ids"
  by code_simp

lemma capture_split:
  "fst (capture B db lines) = r \<Longrightarrow>
     capture B db lines = (r, fst (snd (capture B db lines)), snd (snd (capture B db lines)))"
  by (metis prod.collapse)

lemma capture_Inr:
  assumes "capture B db lines = (Inr ids, evs, db')"
  obtains w' where
    "capture_body B \<lparr>stdin = lines, events = [], db_conn = sqlite_connect db\<rparr> = (Inr ids, w')"
    "evs = events w'" "db' = disk (db_conn w')"
  using assms by (auto simp: capture_def split: prod.splits)

lemma filter_only_prompts [simp]: "only_prompts L E \<Longrightarrow> filter is_insert E = []"
proof (induction E)
  case Nil
  then show ?case by simp
next
  case (Cons e E)
  then show ?case by (cases e) auto
qed

lemma filter_hypothesis_inserts [simp]:
  "filter is_insert (hypothesis_inserts hs cs) = hypothesis_inserts hs cs"
  by (simp add: hypothesis_inserts_def filter_map o_def split_def)

lemma length_hypothesis_inserts [simp]:
  "length cs = length hs \<Longrightarrow> length (hypothesis_inserts hs cs) = length hs"
  by (simp add: hypothesis_inserts_def)

lemma all_hypothesis_inserts:
  "e \<in> set (hypothesis_inserts hs cs) \<Longrightarrow> is_hypothesis_insert e"
  by (auto simp: hypothesis_inserts_def)

lemma filter_hyp_hypothesis_inserts [simp]:
  "filter is_hypothesis_insert (hypothesis_inserts hs cs) = hypothesis_inserts hs cs"
  by (simp add: hypothesis_inserts_def filter_map o_def split_def)


lemma hyp_no_insert:
  "only_prompts L E \<Longrightarrow> e \<in> set E \<Longrightarrow> \<not> is_hypothesis_insert e"
  by (induction E) (auto elim: allowed_event.elims)


lemma filter_hyp_quiet [simp]: "only_prompts L E \<Longrightarrow> filter is_hypothesis_insert E = []"
  by (simp add: filter_empty_conv hyp_no_insert)

text \<open>
  C1. In a completed session the successful inserts are, in this order: the intent, the
  observation, the hypotheses, the test, the outcome, the pattern seed; the identifiers
  returned are the rowids the store gave to them; and every foreign key bound to an
  \<open>INSERT\<close> is the rowid of an insert that stands earlier in that list.
\<close>

theorem foreign_keys_refer_back:
  assumes "capture B db lines = (Inr ids, evs, db')"
  shows "\<exists>c1 c2 cs c4 c5 p c6.
       filter is_insert evs =
         [Inserted ''intents'' (intent_id ids) c1,
          Inserted ''observations'' (observation_id ids) c2]
         @ hypothesis_inserts (hypothesis_ids ids) cs
         @ [Inserted ''tests'' (test_id ids) c4,
            Inserted ''outcomes'' (outcome_id ids) c5,
            Inserted ''pattern_seeds'' p c6]
     \<and> length cs = length (hypothesis_ids ids)
     \<and> cell_value c2 ''intent_id'' = SInt (intent_id ids)
     \<and> (\<forall>c\<in>set cs. cell_value c ''observation_id'' = SInt (observation_id ids))
     \<and> (\<exists>h\<in>set (hypothesis_ids ids). cell_value c4 ''hypothesis_id'' = SInt h)
     \<and> cell_value c5 ''observation_id'' = SInt (observation_id ids)
     \<and> (\<exists>h\<in>set (hypothesis_ids ids). cell_value c5 ''hypothesis_id'' = SInt h)
     \<and> cell_value c6 ''outcome_id'' = SInt (outcome_id ids)"
proof -
  from assms obtain w' where
    b: "capture_body B \<lparr>stdin = lines, events = [], db_conn = sqlite_connect db\<rparr> = (Inr ids, w')"
    and evs: "evs = events w'" by (rule capture_Inr)
  let ?w = "\<lparr>stdin = lines, events = [], db_conn = sqlite_connect db\<rparr>"
  from capture_body_Inr[OF b] obtain
    E1 c1 E2 c2 E3 line3 n EC cs EP E4 line4 k E5 c4 E6 line6 refs c5 E7 p c6 where
    ev: "events w' = events ?w
        @ E1 @ [Inserted ''intents'' (intent_id ids) c1]
        @ E2 @ [Inserted ''observations'' (observation_id ids) c2]
        @ E3 @ [Prompt ''Number of hypotheses'', Read line3] @ EC
        @ hypothesis_inserts (hypothesis_ids ids) cs @ EP
        @ E4 @ [Prompt ''Choose hypothesis to test (index)'', Read line4]
        @ E5 @ [Inserted ''tests'' (test_id ids) c4]
        @ E6 @ [Prompt ''Outcome evidence refs'', Read line6,
                Inserted ''outcomes'' (outcome_id ids) c5]
        @ E7 @ [Inserted ''pattern_seeds'' p c6]"
    and q: "only_prompts other_labels E1" "only_prompts other_labels E2"
      "only_prompts other_labels E3" "only_prompts hypothesis_labels EC"
      "only_prompts {} EP" "only_prompts other_labels E4" "only_prompts other_labels E5"
      "only_prompts other_labels E6" "only_prompts other_labels E7"
    and f: "cell_value c2 ''intent_id'' = SInt (intent_id ids)"
      "length cs = length (hypothesis_ids ids)"
      "\<forall>c\<in>set cs. cell_value c ''observation_id'' = SInt (observation_id ids)"
      "1 \<le> k" "k \<le> int (length (hypothesis_ids ids))"
      "cell_value c4 ''hypothesis_id'' = SInt (hypothesis_ids ids ! nat (k - 1))"
      "cell_value c5 ''observation_id'' = SInt (observation_id ids)"
      "cell_value c5 ''hypothesis_id'' = SInt (hypothesis_ids ids ! nat (k - 1))"
      "cell_value c6 ''outcome_id'' = SInt (outcome_id ids)"
    by (elim exE conjE) (rule that, assumption+)
  have 1: "filter is_insert evs =
         [Inserted ''intents'' (intent_id ids) c1,
          Inserted ''observations'' (observation_id ids) c2]
         @ hypothesis_inserts (hypothesis_ids ids) cs
         @ [Inserted ''tests'' (test_id ids) c4,
            Inserted ''outcomes'' (outcome_id ids) c5,
            Inserted ''pattern_seeds'' p c6]"
    unfolding evs ev using q by simp
  have "nat (k - 1) < length (hypothesis_ids ids)" using f(4,5) by simp
  then have 2: "hypothesis_ids ids ! nat (k - 1) \<in> set (hypothesis_ids ids)" by simp
  from 1 2 f show ?thesis by blast
qed


theorem foreign_keys_refer_back_witness:
  "\<exists>c1 c2 cs c4 c5 p c6.
       filter is_insert (fst (snd (capture example_builtins empty_db example_session))) =
         [Inserted ''intents'' (intent_id example_ids) c1,
          Inserted ''observations'' (observation_id example_ids) c2]
         @ hypothesis_inserts (hypothesis_ids example_ids) cs
         @ [Inserted ''tests'' (test_id example_ids) c4,
            Inserted ''outcomes'' (outcome_id example_ids) c5,
            Inserted ''pattern_seeds'' p c6]
     \<and> length cs = length (hypothesis_ids example_ids)
     \<and> cell_value c2 ''intent_id'' = SInt (intent_id example_ids)
     \<and> (\<forall>c\<in>set cs. cell_value c ''observation_id'' = SInt (observation_id example_ids))
     \<and> (\<exists>h\<in>set (hypothesis_ids example_ids). cell_value c4 ''hypothesis_id'' = SInt h)
     \<and> cell_value c5 ''observation_id'' = SInt (observation_id example_ids)
     \<and> (\<exists>h\<in>set (hypothesis_ids example_ids). cell_value c5 ''hypothesis_id'' = SInt h)
     \<and> cell_value c6 ''outcome_id'' = SInt (outcome_id example_ids)"
  by (rule foreign_keys_refer_back[OF capture_split[OF example_completes]])












text \<open>
  C2. In a completed session the operator's accepted line for the outcome's evidence refs
  parses to a list \<open>refs\<close>; the list \<open>final\<close> that the outcome is inserted with, and that
  the committed \<open>outcomes\<close> row holds (serialised by \<open>json.dumps\<close>), is \<open>refs\<close> itself
  when \<open>refs\<close> contains \<open>test:<test_id>\<close>, and otherwise \<open>refs\<close> with that token
  appended at the end, where the token then occurs exactly once.
\<close>

theorem outcome_refs_include_test:
  assumes "capture B db lines = (Inr ids, evs, db')"
  shows "\<exists>pre line cells post refs final.
       evs = pre @ [Prompt ''Outcome evidence refs'', Read line,
                    Inserted ''outcomes'' (outcome_id ids) cells] @ post
     \<and> parse_evidence_refs B (strip line) = Inr refs
     \<and> cell_value cells ''evidence_refs'' = SText (json_dumps B (refs_json final))
     \<and> has_row db' ''outcomes'' (outcome_id ids) ''evidence_refs''
           (SText (json_dumps B (refs_json final)))
     \<and> ''test:'' @ str_of_int (test_id ids) \<in> set final
     \<and> (''test:'' @ str_of_int (test_id ids) \<in> set refs \<longrightarrow> final = refs)
     \<and> (''test:'' @ str_of_int (test_id ids) \<notin> set refs \<longrightarrow>
           final = refs @ [''test:'' @ str_of_int (test_id ids)]
         \<and> count_list final (''test:'' @ str_of_int (test_id ids)) = 1)"
proof -
  from assms obtain w' where
    b: "capture_body B \<lparr>stdin = lines, events = [], db_conn = sqlite_connect db\<rparr> = (Inr ids, w')"
    and evs: "evs = events w'" and db': "db' = disk (db_conn w')" by (rule capture_Inr)
  let ?w = "\<lparr>stdin = lines, events = [], db_conn = sqlite_connect db\<rparr>"
  from capture_body_Inr[OF b] obtain
    E1 c1 E2 c2 E3 line3 n EC cs EP E4 line4 k E5 c4 E6 line6 refs c5 E7 p c6 where
    ev: "events w' = events ?w
        @ E1 @ [Inserted ''intents'' (intent_id ids) c1]
        @ E2 @ [Inserted ''observations'' (observation_id ids) c2]
        @ E3 @ [Prompt ''Number of hypotheses'', Read line3] @ EC
        @ hypothesis_inserts (hypothesis_ids ids) cs @ EP
        @ E4 @ [Prompt ''Choose hypothesis to test (index)'', Read line4]
        @ E5 @ [Inserted ''tests'' (test_id ids) c4]
        @ E6 @ [Prompt ''Outcome evidence refs'', Read line6,
                Inserted ''outcomes'' (outcome_id ids) c5]
        @ E7 @ [Inserted ''pattern_seeds'' p c6]"
    and f: "parse_evidence_refs B (strip line6) = Inr refs"
      "cell_value c5 ''evidence_refs'' =
        SText (json_dumps B (refs_json
          (if ''test:'' @ str_of_int (test_id ids) \<in> set refs then refs
           else refs @ [''test:'' @ str_of_int (test_id ids)])))"
      "has_row (disk (db_conn w')) ''outcomes'' (outcome_id ids) ''evidence_refs''
         (SText (json_dumps B (refs_json
            (if ''test:'' @ str_of_int (test_id ids) \<in> set refs then refs
             else refs @ [''test:'' @ str_of_int (test_id ids)]))))"
    by (elim exE conjE) (rule that, assumption+)
  let ?tok = "''test:'' @ str_of_int (test_id ids)"
  let ?final = "if ?tok \<in> set refs then refs else refs @ [?tok]"
  let ?pre = "E1 @ [Inserted ''intents'' (intent_id ids) c1]
        @ E2 @ [Inserted ''observations'' (observation_id ids) c2]
        @ E3 @ [Prompt ''Number of hypotheses'', Read line3] @ EC
        @ hypothesis_inserts (hypothesis_ids ids) cs @ EP
        @ E4 @ [Prompt ''Choose hypothesis to test (index)'', Read line4]
        @ E5 @ [Inserted ''tests'' (test_id ids) c4] @ E6"
  let ?post = "E7 @ [Inserted ''pattern_seeds'' p c6]"
  have 1: "evs = ?pre @ [Prompt ''Outcome evidence refs'', Read line6,
                    Inserted ''outcomes'' (outcome_id ids) c5] @ ?post"
    unfolding evs ev by simp
  have 2: "?tok \<in> set ?final" by simp
  have 3: "?tok \<in> set refs \<longrightarrow> ?final = refs" by simp
  have 4: "?tok \<notin> set refs \<longrightarrow> ?final = refs @ [?tok] \<and> count_list ?final ?tok = 1"
    by (simp add: count_list_0_iff)
  show ?thesis
    apply (rule exI[of _ ?pre], rule exI[of _ line6], rule exI[of _ c5], rule exI[of _ ?post])
    apply (rule exI[of _ refs], rule exI[of _ ?final])
    using 1 2 3 4 f unfolding db'
    apply (intro conjI)
          apply assumption+
    done
qed

theorem outcome_refs_include_test_witness:
  \<open>(\<exists>pre line cells post refs final.
       fst (snd (capture example_builtins empty_db example_session)) =
         pre @ [Prompt ''Outcome evidence refs'', Read line,
                Inserted ''outcomes'' (outcome_id example_ids) cells] @ post
     \<and> parse_evidence_refs example_builtins (strip line) = Inr refs
     \<and> cell_value cells ''evidence_refs'' = SText (json_dumps example_builtins (refs_json final))
     \<and> has_row (snd (snd (capture example_builtins empty_db example_session)))
           ''outcomes'' (outcome_id example_ids) ''evidence_refs''
           (SText (json_dumps example_builtins (refs_json final)))
     \<and> ''test:'' @ str_of_int (test_id example_ids) \<in> set final
     \<and> (''test:'' @ str_of_int (test_id example_ids) \<in> set refs \<longrightarrow> final = refs)
     \<and> (''test:'' @ str_of_int (test_id example_ids) \<notin> set refs \<longrightarrow>
           final = refs @ [''test:'' @ str_of_int (test_id example_ids)]
         \<and> count_list final (''test:'' @ str_of_int (test_id example_ids)) = 1))
   \<and> has_row (snd (snd (capture example_builtins empty_db example_session)))
         ''outcomes'' 1 ''evidence_refs'' (SText ''["log:1234", "test:1"]'')\<close>
proof -
  have \<open>has_row (snd (snd (capture example_builtins empty_db example_session)))
         ''outcomes'' 1 ''evidence_refs'' (SText ''["log:1234", "test:1"]'')\<close>
    by code_simp
  with outcome_refs_include_test[OF capture_split[OF example_completes]]
  show ?thesis by blast
qed

text \<open>
  C5. In a completed session the operator's accepted index \<open>k\<close> selects the hypothesis
  \<open>h = hypothesis_ids[k - 1]\<close>; the test and, after it, the outcome are inserted with
  \<open>hypothesis_id = h\<close>, the outcome with the session's \<open>observation_id\<close>, and the committed
  rows of \<open>tests\<close> and \<open>outcomes\<close> hold these values.
\<close>

theorem outcome_references_tested_hypothesis:
  assumes "capture B db lines = (Inr ids, evs, db')"
  shows "\<exists>pre line mid c4 mid2 c5 post k h.
       evs = pre @ [Prompt ''Choose hypothesis to test (index)'', Read line] @ mid
               @ [Inserted ''tests'' (test_id ids) c4] @ mid2
               @ [Inserted ''outcomes'' (outcome_id ids) c5] @ post
     \<and> py_int B (strip line) = Some k \<and> 1 \<le> k \<and> k \<le> int (length (hypothesis_ids ids))
     \<and> h = hypothesis_ids ids ! nat (k - 1)
     \<and> cell_value c4 ''hypothesis_id'' = SInt h
     \<and> cell_value c5 ''hypothesis_id'' = SInt h
     \<and> cell_value c5 ''observation_id'' = SInt (observation_id ids)
     \<and> has_row db' ''tests'' (test_id ids) ''hypothesis_id'' (SInt h)
     \<and> has_row db' ''outcomes'' (outcome_id ids) ''hypothesis_id'' (SInt h)
     \<and> has_row db' ''outcomes'' (outcome_id ids) ''observation_id''
           (SInt (observation_id ids))"
proof -
  from assms obtain w' where
    b: "capture_body B \<lparr>stdin = lines, events = [], db_conn = sqlite_connect db\<rparr> = (Inr ids, w')"
    and evs: "evs = events w'" and db': "db' = disk (db_conn w')" by (rule capture_Inr)
  let ?w = "\<lparr>stdin = lines, events = [], db_conn = sqlite_connect db\<rparr>"
  from capture_body_Inr[OF b] obtain
    E1 c1 E2 c2 E3 line3 n EC cs EP E4 line4 k E5 c4 E6 line6 refs c5 E7 p c6 where
    ev: "events w' = events ?w
        @ E1 @ [Inserted ''intents'' (intent_id ids) c1]
        @ E2 @ [Inserted ''observations'' (observation_id ids) c2]
        @ E3 @ [Prompt ''Number of hypotheses'', Read line3] @ EC
        @ hypothesis_inserts (hypothesis_ids ids) cs @ EP
        @ E4 @ [Prompt ''Choose hypothesis to test (index)'', Read line4]
        @ E5 @ [Inserted ''tests'' (test_id ids) c4]
        @ E6 @ [Prompt ''Outcome evidence refs'', Read line6,
                Inserted ''outcomes'' (outcome_id ids) c5]
        @ E7 @ [Inserted ''pattern_seeds'' p c6]"
    and f: "py_int B (strip line4) = Some k" "1 \<le> k" "k \<le> int (length (hypothesis_ids ids))"
      "cell_value c4 ''hypothesis_id'' = SInt (hypothesis_ids ids ! nat (k - 1))"
      "cell_value c5 ''hypothesis_id'' = SInt (hypothesis_ids ids ! nat (k - 1))"
      "cell_value c5 ''observation_id'' = SInt (observation_id ids)"
      "has_row (disk (db_conn w')) ''tests'' (test_id ids) ''hypothesis_id''
         (SInt (hypothesis_ids ids ! nat (k - 1)))"
      "has_row (disk (db_conn w')) ''outcomes'' (outcome_id ids) ''hypothesis_id''
         (SInt (hypothesis_ids ids ! nat (k - 1)))"
      "has_row (disk (db_conn w')) ''outcomes'' (outcome_id ids) ''observation_id''
         (SInt (observation_id ids))"
    by (elim exE conjE) (rule that, assumption+)
  let ?pre = "E1 @ [Inserted ''intents'' (intent_id ids) c1]
        @ E2 @ [Inserted ''observations'' (observation_id ids) c2]
        @ E3 @ [Prompt ''Number of hypotheses'', Read line3] @ EC
        @ hypothesis_inserts (hypothesis_ids ids) cs @ EP @ E4"
  let ?mid2 = "E6 @ [Prompt ''Outcome evidence refs'', Read line6]"
  let ?post = "E7 @ [Inserted ''pattern_seeds'' p c6]"
  have 1: "evs = ?pre @ [Prompt ''Choose hypothesis to test (index)'', Read line4] @ E5
               @ [Inserted ''tests'' (test_id ids) c4] @ ?mid2
               @ [Inserted ''outcomes'' (outcome_id ids) c5] @ ?post"
    unfolding evs ev by simp
  have 2: "hypothesis_ids ids ! nat (k - 1) = hypothesis_ids ids ! nat (k - 1)" by simp
  show ?thesis
    apply (rule exI[of _ ?pre], rule exI[of _ line4], rule exI[of _ E5], rule exI[of _ c4])
    apply (rule exI[of _ ?mid2], rule exI[of _ c5], rule exI[of _ ?post], rule exI[of _ k])
    apply (rule exI[of _ "hypothesis_ids ids ! nat (k - 1)"])
    using 1 2 f unfolding db'
    apply (intro conjI)
              apply assumption+
    done
qed

theorem outcome_references_tested_hypothesis_witness:
  "\<exists>pre line mid c4 mid2 c5 post k h.
       fst (snd (capture example_builtins empty_db example_session)) =
         pre @ [Prompt ''Choose hypothesis to test (index)'', Read line] @ mid
               @ [Inserted ''tests'' (test_id example_ids) c4] @ mid2
               @ [Inserted ''outcomes'' (outcome_id example_ids) c5] @ post
     \<and> py_int example_builtins (strip line) = Some k \<and> 1 \<le> k
     \<and> k \<le> int (length (hypothesis_ids example_ids))
     \<and> h = hypothesis_ids example_ids ! nat (k - 1)
     \<and> cell_value c4 ''hypothesis_id'' = SInt h
     \<and> cell_value c5 ''hypothesis_id'' = SInt h
     \<and> cell_value c5 ''observation_id'' = SInt (observation_id example_ids)
     \<and> has_row (snd (snd (capture example_builtins empty_db example_session)))
           ''tests'' (test_id example_ids) ''hypothesis_id'' (SInt h)
     \<and> has_row (snd (snd (capture example_builtins empty_db example_session)))
           ''outcomes'' (outcome_id example_ids) ''hypothesis_id'' (SInt h)
     \<and> has_row (snd (snd (capture example_builtins empty_db example_session)))
           ''outcomes'' (outcome_id example_ids) ''observation_id''
           (SInt (observation_id example_ids))"
  by (rule outcome_references_tested_hypothesis[OF capture_split[OF example_completes]])


section \<open>The committed database\<close>

lemma keeps_disk_ret [intro!, simp]: "keeps_disk (ret a)"
  by (simp add: keeps_disk_def ret_def)

lemma keeps_disk_raise [intro!, simp]: "keeps_disk (raise e)"
  by (simp add: keeps_disk_def raise_def)

lemma keeps_disk_io [intro!, simp]: "keeps_disk (io f)"
  by (auto simp: keeps_disk_def io_def split: prod.splits)

lemma keeps_disk_say [intro!, simp]: "keeps_disk (say m)"
  by (simp add: keeps_disk_def say_def)

lemma keeps_disk_insert [intro!, simp]: "keeps_disk (execute_insert name cols vals)"
  by (auto simp: keeps_disk_def execute_insert_def conn_execute_def sqlite_step_def
           split: prod.splits sum.splits option.splits if_splits)

lemma keeps_disk_bind [intro!]:
  "keeps_disk m \<Longrightarrow> (\<And>a. keeps_disk (f a)) \<Longrightarrow> keeps_disk (bind m f)"
  unfolding keeps_disk_def bind_def
  by (auto split: prod.splits sum.splits)

lemma keeps_disk_collect [intro!, simp]: "keeps_disk (collect_hypotheses B k index acc)"
  by (induction k arbitrary: index acc) auto

lemma keeps_disk_persist [intro!, simp]: "keeps_disk (persist_hypotheses B ob hyps ids)"
  by (induction hyps arbitrary: ids) auto

lemma keeps_disk_print [intro!, simp]: "keeps_disk (print_hypotheses ids idx)"
  by (induction ids arbitrary: idx) auto

lemma keeps_disk_intent [intro!, simp]: "keeps_disk (capture_intent B)"
  unfolding capture_intent_def by auto

lemma keeps_disk_observation [intro!, simp]: "keeps_disk (capture_observation B i)"
  unfolding capture_observation_def by auto

lemma keeps_disk_hypotheses [intro!, simp]: "keeps_disk (capture_hypotheses B ob)"
  unfolding capture_hypotheses_def by auto

lemma keeps_disk_test [intro!, simp]: "keeps_disk (capture_test B ids)"
  unfolding capture_test_def by (auto split: option.splits)

lemma keeps_disk_outcome [intro!, simp]: "keeps_disk (capture_outcome B ob h t)"
  unfolding capture_outcome_def by (auto simp: Let_def)

lemma keeps_disk_pattern_seed [intro!, simp]: "keeps_disk (capture_pattern_seed B oc)"
  unfolding capture_pattern_seed_def by auto

lemma fails_clean_bind:
  "keeps_disk m \<Longrightarrow> (\<And>a. fails_clean (f a)) \<Longrightarrow> fails_clean (bind m f)"
  unfolding keeps_disk_def fails_clean_def bind_def
  by (fastforce split: prod.splits sum.splits)

lemma fails_clean_commit: "fails_clean (bind conn_commit (\<lambda>_. ret a))"
  by (simp add: fails_clean_def bind_def conn_commit_def ret_def)

text \<open>What follows \<open>_ensure_schema\<close> in the \<open>try\<close> block of \<open>capture\<close>.\<close>

lemma session_fails_clean:
  "fails_clean
     (bind (capture_intent B) (\<lambda>intent.
      bind (capture_observation B intent) (\<lambda>observation.
      bind (capture_hypotheses B observation) (\<lambda>ids.
      bind (capture_test B ids) (\<lambda>(hypothesis, test).
      bind (capture_outcome B observation hypothesis test) (\<lambda>outcome.
      bind (capture_pattern_seed B outcome) (\<lambda>_.
      bind conn_commit (\<lambda>_.
      ret \<lparr>intent_id = intent, observation_id = observation, hypothesis_ids = ids,
           test_id = test, outcome_id = outcome\<rparr>))))))))"
  by (intro fails_clean_bind keeps_disk_intent keeps_disk_observation keeps_disk_hypotheses
        keeps_disk_test keeps_disk_outcome keeps_disk_pattern_seed)
     (auto intro!: fails_clean_bind fails_clean_commit)


lemma lookup_append:
  "lookup_table (db\<lparr>tables := tables db @ [(name, t)]\<rparr>) n =
     (case lookup_table db n of
        Some t' \<Rightarrow> Some t'
      | None \<Rightarrow> if n = name then Some t else None)"
  by (auto simp: lookup_table_def map_add_def split: option.splits)

lemma lookup_None_iff: "lookup_table db n = None \<longleftrightarrow> n \<notin> fst ` set (tables db)"
  by (simp add: lookup_table_def map_of_eq_None_iff)

lemma only_schema_added_refl [simp]: "only_schema_added db db"
  by (simp add: only_schema_added_def)

lemma only_schema_added_trans:
  assumes "only_schema_added a b" "only_schema_added b c"
  shows "only_schema_added a c"
proof -
  have 1: "\<forall>n t. lookup_table a n = Some t \<longrightarrow> lookup_table c n = Some t"
    using assms unfolding only_schema_added_def by blast
  have 2: "indexes c = indexes a"
    using assms unfolding only_schema_added_def by simp
  have 3: "\<forall>n t. lookup_table c n = Some t \<longrightarrow> lookup_table a n = None \<longrightarrow>
             n \<in> set schema_names \<and> t_rows t = []"
  proof (intro allI impI)
    fix n t assume c: "lookup_table c n = Some t" and a: "lookup_table a n = None"
    show "n \<in> set schema_names \<and> t_rows t = []"
    proof (cases "lookup_table b n")
      case None
      with c assms(2) show ?thesis unfolding only_schema_added_def by blast
    next
      case (Some tb)
      with assms(2) have "lookup_table c n = Some tb" unfolding only_schema_added_def by blast
      with c have "tb = t" by simp
      with Some a assms(1) show ?thesis unfolding only_schema_added_def by blast
    qed
  qed
  have 4: "set schema_names \<subseteq> fst ` set (tables a) \<longrightarrow> c = a"
  proof
    assume s: "set schema_names \<subseteq> fst ` set (tables a)"
    with assms(1) have "b = a" unfolding only_schema_added_def by blast
    with s assms(2) show "c = a" unfolding only_schema_added_def by blast
  qed
  from 1 2 3 4 show ?thesis unfolding only_schema_added_def by blast
qed

lemma create_table_added:
  assumes "create_table name t db = Inr db'" "name \<in> set schema_names"
  shows "only_schema_added db db'"
proof (cases "name \<in> fst ` set (tables db)")
  case True
  with assms(1) show ?thesis by (simp add: create_table_def)
next
  case False
  with assms(1) have db': "db' = db\<lparr>tables := tables db @ [(name, t\<lparr>t_seq := 0, t_rows := []\<rparr>)]\<rparr>"
    by (simp add: create_table_def split: if_splits)
  from False assms(2) have ns: "\<not> set schema_names \<subseteq> fst ` set (tables db)" by blast
  have 1: "\<forall>n t'. lookup_table db n = Some t' \<longrightarrow> lookup_table db' n = Some t'"
    unfolding db' by (simp add: lookup_append)
  have 2: "indexes db' = indexes db" unfolding db' by simp
  have 3: "\<forall>n t'. lookup_table db' n = Some t' \<longrightarrow> lookup_table db n = None \<longrightarrow>
             n \<in> set schema_names \<and> t_rows t' = []"
    unfolding db' using assms(2) by (auto simp: lookup_append split: if_splits)
  from 1 2 3 ns show ?thesis unfolding only_schema_added_def by blast
qed

text \<open>A script of \<open>CREATE TABLE IF NOT EXISTS\<close> statements for tables of the schema.\<close>

lemma run_script_added:
  assumes "run_script c ss = (r, c')" "\<not> in_txn c" "work c = disk c"
    and "\<forall>s\<in>set ss. \<exists>name t. s = CreateTable name t \<and> name \<in> set schema_names"
  shows "only_schema_added (disk c) (disk c') \<and> \<not> in_txn c' \<and> work c' = disk c'
         \<and> foreign_keys c' = foreign_keys c"
  using assms
proof (induction ss arbitrary: c)
  case Nil
  then show ?case by simp
next
  case (Cons s ss)
  from Cons.prems(4) obtain name t where s: "s = CreateTable name t" "name \<in> set schema_names"
    by auto
  show ?case
  proof (cases "create_table name t (work c)")
    case (Inl e)
    with Cons.prems(1) s have "c' = c"
      by (simp add: sqlite_step_def)
    then show ?thesis using Cons.prems by simp
  next
    case (Inr db1)
    let ?c1 = "c\<lparr>work := db1, disk := db1\<rparr>"
    from Inr Cons.prems(1,2) s have r: "run_script ?c1 ss = (r, c')"
      by (simp add: sqlite_step_def)
    have "only_schema_added (disk ?c1) (disk c') \<and> \<not> in_txn c' \<and> work c' = disk c'
         \<and> foreign_keys c' = foreign_keys ?c1"
      using Cons.prems(2,4) by (intro Cons.IH[OF r]) simp_all
    moreover have "only_schema_added (disk c) (disk ?c1)"
      using create_table_added[OF Inr s(2)] Cons.prems(3) by simp
    ultimately show ?thesis by (auto intro: only_schema_added_trans)
  qed
qed

lemma schema_script_tables:
  "\<forall>s\<in>set schema_script. \<exists>name t. s = CreateTable name t \<and> name \<in> set schema_names"
  by (simp add: schema_script_def schema_names_def)

lemma ensure_schema_fresh:
  assumes "ensure_schema w = (r, w')" "db_conn w = sqlite_connect db"
  shows "only_schema_added db (disk (db_conn w')) \<and> \<not> in_txn (db_conn w')
         \<and> work (db_conn w') = disk (db_conn w') \<and> foreign_keys (db_conn w')"
proof -
  let ?c = "(sqlite_connect db)\<lparr>foreign_keys := True\<rparr>"
  from assms have "\<exists>c'. run_script ?c schema_script = (r, c') \<and> db_conn w' = c'"
    by (auto simp: ensure_schema_def bind_def execute_def executescript_def conn_execute_def
          sqlite_step_def conn_executescript_def sqlite_connect_def
          split: prod.splits sum.splits)
  then obtain c' where r: "run_script ?c schema_script = (r, c')" and c': "db_conn w' = c'"
    by blast
  from run_script_added[OF r _ _ schema_script_tables]
  show ?thesis unfolding c' by (simp add: sqlite_connect_def)
qed

text \<open>
  C4 as stated fails: on a new, empty store a session that ends at the first prompt
  (standard input closed) leaves the six tables behind.
\<close>

theorem aborted_session_creates_tables:
  "fst (capture example_builtins empty_db []) = Inl EOFError
   \<and> map fst (tables (snd (snd (capture example_builtins empty_db [])))) = schema_names
   \<and> snd (snd (capture example_builtins empty_db [])) \<noteq> empty_db"
  by code_simp

text \<open>
  C4, amended. When \<open>capture\<close> raises, for whatever reason, the database file afterwards is
  the file as it was with at most some of the six tables created, empty, by
  \<open>_ensure_schema\<close> (whose \<open>CREATE TABLE\<close> statements \<open>executescript\<close> commits at once):
  every table that existed is unchanged, rows and all, so no row written by the session
  is left; and on a store that has the six tables the file is exactly as before.
\<close>

theorem aborted_session_leaves_no_rows:
  assumes "capture B db lines = (Inl e, evs, db')"
  shows "(\<forall>n t. lookup_table db n = Some t \<longrightarrow> lookup_table db' n = Some t)
       \<and> indexes db' = indexes db
       \<and> (\<forall>n t. lookup_table db' n = Some t \<longrightarrow> lookup_table db n = None \<longrightarrow>
             n \<in> set schema_names \<and> t_rows t = [])
       \<and> (set schema_names \<subseteq> fst ` set (tables db) \<longrightarrow> db' = db)"
proof -
  let ?w = "\<lparr>stdin = lines, events = [], db_conn = sqlite_connect db\<rparr>"
  from assms obtain w' where
    b: "capture_body B ?w = (Inl e, w')" and db': "db' = disk (db_conn w')"
    by (auto simp: capture_def split: prod.splits)
  have "only_schema_added db (disk (db_conn w'))"
  proof (cases "ensure_schema ?w")
    case (Pair r0 w0)
    note es = ensure_schema_fresh[OF Pair, of db, simplified]
    show ?thesis
    proof (cases r0)
      case (Inl e0)
      with b Pair have "w' = w0" by (simp add: capture_body_def bind_def)
      with es show ?thesis by simp
    next
      case (Inr u)
      with b Pair have "bind (capture_intent B) (\<lambda>intent.
          bind (capture_observation B intent) (\<lambda>observation.
          bind (capture_hypotheses B observation) (\<lambda>ids.
          bind (capture_test B ids) (\<lambda>(hypothesis, test).
          bind (capture_outcome B observation hypothesis test) (\<lambda>outcome.
          bind (capture_pattern_seed B outcome) (\<lambda>_.
          bind conn_commit (\<lambda>_.
          ret \<lparr>intent_id = intent, observation_id = observation, hypothesis_ids = ids,
               test_id = test, outcome_id = outcome\<rparr>))))))) w0 = (Inl e, w')"
        by (simp add: capture_body_def bind_def[of ensure_schema])
      with session_fails_clean[of B] have "disk (db_conn w') = disk (db_conn w0)"
        unfolding fails_clean_def by blast
      with es show ?thesis by simp
    qed
  qed
  then show ?thesis unfolding db' only_schema_added_def by blast
qed


lemma example_abort:
  "fst (capture example_builtins example_db (take 10 example_session)) = Inl EOFError"
  unfolding example_db_def by code_simp

lemma example_db_schema: "set schema_names \<subseteq> fst ` set (tables example_db)"
  unfolding example_db_def by code_simp

theorem aborted_session_leaves_no_rows_witness:
  "fst (capture example_builtins example_db (take 10 example_session)) = Inl EOFError
   \<and> set schema_names \<subseteq> fst ` set (tables example_db)
   \<and> snd (snd (capture example_builtins example_db (take 10 example_session))) = example_db"
  using aborted_session_leaves_no_rows[OF capture_split[OF example_abort]]
    example_abort example_db_schema
  by blast


section \<open>Schema versions and schema setup\<close>

lemma connect_eq:
  "connect db = \<lparr>disk = db, work = db, in_txn = False, foreign_keys = True\<rparr>"
  by (simp add: connect_def conn_execute_def sqlite_step_def sqlite_connect_def)

lemma lookup_in_names: "lookup_table db n = Some t \<Longrightarrow> n \<in> fst ` set (tables db)"
  by (auto simp: lookup_table_def dest: map_of_SomeD intro: rev_image_eqI)

lemma get_schema_version_recorded:
  assumes "db_conn w = connect db" "recorded_version B db = Some v"
  shows "get_schema_version B w = (Inr v, w)"
proof -
  from assms(2) obtain x where
    s: "select_greatest db ''schema_version'' ''version'' = Inr (Some x)" and
    i: "int_of_sql B x = Inr v"
    by (auto simp: recorded_version_def split: sum.splits option.splits)
  from s obtain t where "lookup_table db ''schema_version'' = Some t"
    by (auto simp: select_greatest_def split: option.splits)
  then have "create_table ''schema_version'' schema_version_table db = Inr db"
    by (simp add: create_table_def lookup_in_names)
  then have "ensure_schema_table w = (Inr (), w)"
    using assms(1)
    by (simp add: ensure_schema_table_def execute_def conn_execute_def sqlite_step_def connect_eq)
  then show ?thesis
    using s i assms(1) by (simp add: get_schema_version_def bind_def connect_eq)
qed

text \<open>
  C9 as stated fails for the capture tool, which reads no schema version: on a store
  that records version 2 the session of the example runs to the end and commits.
\<close>

theorem capture_ignores_schema_version:
  "recorded_version example_builtins newer_db = Some 2
   \<and> SCHEMA_VERSION < 2
   \<and> fst (capture example_builtins newer_db example_session) = Inr example_ids
   \<and> snd (snd (capture example_builtins newer_db example_session)) \<noteq> newer_db"
  by code_simp

text \<open>
  C9, amended. \<open>initialize_db\<close> of evez-core, on a store whose recorded schema version is
  newer than \<open>SCHEMA_VERSION\<close>, raises \<open>RuntimeError\<close> and leaves the store as it was (no
  migration, nothing written); the \<open>init\<close> command then exits with status 1.
\<close>

theorem newer_store_rejected:
  assumes "recorded_version B db = Some v" "SCHEMA_VERSION < v"
  shows "initialize_db B db =
           (Inl (RuntimeError (''Database version '' @ str_of_int v
                               @ '' is newer than supported '' @ str_of_int SCHEMA_VERSION)), db)
       \<and> run_init_status B db = (1, db)"
proof -
  let ?w = "\<lparr>stdin = [], events = [], db_conn = connect db\<rparr>"
  have "get_schema_version B ?w = (Inr v, ?w)"
    using assms(1) by (intro get_schema_version_recorded) simp_all
  then have "initialize_body B ?w =
      (Inl (RuntimeError (''Database version '' @ str_of_int v
                               @ '' is newer than supported '' @ str_of_int SCHEMA_VERSION)), ?w)"
    using assms(2) by (simp add: initialize_body_def bind_def raise_def)
  then have "initialize_db B db =
           (Inl (RuntimeError (''Database version '' @ str_of_int v
                               @ '' is newer than supported '' @ str_of_int SCHEMA_VERSION)), db)"
    by (simp add: initialize_db_def rollback_def connect_eq)
  then show ?thesis by (simp add: run_init_status_def)
qed

lemma newer_db_recorded: "recorded_version example_builtins newer_db = Some 2"
  by code_simp

theorem newer_store_rejected_witness:
  "recorded_version example_builtins newer_db = Some 2 \<and> SCHEMA_VERSION < 2
   \<and> initialize_db example_builtins newer_db =
       (Inl (RuntimeError ''Database version 2 is newer than supported 1''), newer_db)
   \<and> run_init_status example_builtins newer_db = (1, newer_db)"
proof -
  have s: "SCHEMA_VERSION < 2" by (simp add: SCHEMA_VERSION_def)
  have m: "''Database version '' @ str_of_int 2 @ '' is newer than supported ''
             @ str_of_int SCHEMA_VERSION = ''Database version 2 is newer than supported 1''"
    by code_simp
  from newer_store_rejected[OF newer_db_recorded s] newer_db_recorded s
  show ?thesis by (simp only: m)
qed

lemma initialize_up_to_date:
  assumes "recorded_version B db = Some SCHEMA_VERSION"
  shows "initialize_db B db = (Inr SCHEMA_VERSION, db)"
proof -
  let ?w = "\<lparr>stdin = [], events = [], db_conn = connect db\<rparr>"
  have "get_schema_version B ?w = (Inr SCHEMA_VERSION, ?w)"
    using assms by (intro get_schema_version_recorded) simp_all
  then have "initialize_body B ?w = (Inr SCHEMA_VERSION, ?w)"
    by (simp add: initialize_body_def bind_def ret_def)
  then show ?thesis
    by (simp add: initialize_db_def commit_def connect_eq)
qed

end
